theory Spec2Isabelle
  imports Complex_Main
begin

section \<open>Data model (shared/types/game.ts)\<close>

text \<open>
  A TypeScript \<open>number\<close> is read as a \<open>real\<close>: the arithmetic of the game core
  (sums, differences, products with 1.5 and 1.2, \<open>Math.max\<close>, \<open>Math.min\<close>) is taken
  exactly, without rounding, NaN or infinities. Every \<open>performance.now()\<close> the code reads
  is a parameter of the function that reads it.
\<close>

datatype modifier_type = Increase | Decrease

record SpeedModifier =
  mtype :: modifier_type
  amount :: real
  startTime :: real
  duration :: real

record Car =
  distanceCovered :: real
  currentSpeed :: real
  baseSpeed :: real
  speedModifiers :: "SpeedModifier list"

record Track =
  distance :: real
  averageSpeed :: real
  raceTime :: "real option"
  brakePoints :: "real list"
  straightPoints :: "real list"
  speedIncrease :: real
  pointDuration :: real
  speedDecrease :: real

record ControlState =
  isActive :: bool
  activatedAt :: real
  cs_duration :: real

text \<open>The object \<open>{ brake: ControlState; acceleration: ControlState }\<close>.\<close>

record ControlStates =
  brake :: ControlState
  acceleration :: ControlState

text \<open>\<open>'brake_point' | 'straight_point'\<close> and \<open>'brake' | 'acceleration'\<close>.\<close>

datatype checkpoint_type = BrakePoint | StraightPoint

datatype control_type = Brake | Acceleration

record CheckpointEvent =
  ev_type :: checkpoint_type
  ev_distance :: real
  ev_activatedAt :: real
  ev_duration :: real

datatype game_status = Idle | Running | Finished

section \<open>CarManager (shared/types/car.ts)\<close>

text \<open>\<open>updatePosition(deltaTime, trackDistance)\<close>.\<close>

definition updatePosition :: "real \<Rightarrow> real \<Rightarrow> Car \<Rightarrow> Car" where
  "updatePosition deltaTime trackDistance c =
     (let deltaTimeSeconds = deltaTime / 1000;
          distanceIncrement = currentSpeed c * deltaTimeSeconds
      in c\<lparr>distanceCovered := min (distanceCovered c + distanceIncrement) trackDistance\<rparr>)"

text \<open>The filter predicate of \<open>updateCurrentSpeed\<close>: the modifier has not expired.\<close>

definition notExpired :: "real \<Rightarrow> SpeedModifier \<Rightarrow> bool" where
  "notExpired currentTime m \<longleftrightarrow> currentTime - startTime m < duration m"

text \<open>
  The \<open>for\<close> loop of \<open>updateCurrentSpeed\<close>, with the running \<open>currentSpeed\<close> as
  accumulator: an increase is added, a decrease is subtracted under \<open>Math.max(0, _)\<close>.
\<close>

fun applyModifiers :: "real \<Rightarrow> SpeedModifier list \<Rightarrow> real" where
  "applyModifiers speed [] = speed"
| "applyModifiers speed (m # ms) =
     (if mtype m = Increase then applyModifiers (speed + amount m) ms
      else applyModifiers (max 0 (speed - amount m)) ms)"

text \<open>\<open>updateCurrentSpeed()\<close>; \<open>currentTime\<close> is its \<open>performance.now()\<close>.\<close>

definition updateCurrentSpeed :: "real \<Rightarrow> Car \<Rightarrow> Car" where
  "updateCurrentSpeed currentTime c =
     (let kept = filter (notExpired currentTime) (speedModifiers c)
      in c\<lparr>speedModifiers := kept, currentSpeed := applyModifiers (baseSpeed c) kept\<rparr>)"

text \<open>
  \<open>addSpeedModifier(type, amount, duration)\<close>. The method reads the clock twice: \<open>t0\<close>
  becomes the \<open>startTime\<close> of the pushed modifier, \<open>currentTime\<close> is read by the
  \<open>updateCurrentSpeed\<close> it calls afterwards. It has no \<open>throw\<close>.
\<close>

definition addSpeedModifier ::
  "modifier_type \<Rightarrow> real \<Rightarrow> real \<Rightarrow> real \<Rightarrow> real \<Rightarrow> Car \<Rightarrow> Car" where
  "addSpeedModifier ty amt dur t0 currentTime c =
     updateCurrentSpeed currentTime
       (c\<lparr>speedModifiers := speedModifiers c @
            [\<lparr>mtype = ty, amount = amt, startTime = t0, duration = dur\<rparr>]\<rparr>)"

text \<open>\<open>isRaceComplete(trackDistance)\<close> and \<open>reset(baseSpeed)\<close>.\<close>

definition isRaceComplete :: "real \<Rightarrow> Car \<Rightarrow> bool" where
  "isRaceComplete trackDistance c \<longleftrightarrow> distanceCovered c \<ge> trackDistance"

definition reset_car :: "real \<Rightarrow> Car" where
  "reset_car base =
     \<lparr>distanceCovered = 0, currentSpeed = base, baseSpeed = base, speedModifiers = []\<rparr>"

text \<open>
  A sequence of calls on one \<open>CarManager\<close>, each with the clock values it reads.
\<close>

datatype car_call =
    UpdatePosition real real
  | AddSpeedModifier modifier_type real real real real
  | UpdateCurrentSpeed real
  | Reset real

fun car_step :: "Car \<Rightarrow> car_call \<Rightarrow> Car" where
  "car_step c (UpdatePosition deltaTime trackDistance) = updatePosition deltaTime trackDistance c"
| "car_step c (AddSpeedModifier ty amt dur t0 currentTime) =
     addSpeedModifier ty amt dur t0 currentTime c"
| "car_step c (UpdateCurrentSpeed currentTime) = updateCurrentSpeed currentTime c"
| "car_step c (Reset base) = reset_car base"

definition car_run :: "Car \<Rightarrow> car_call list \<Rightarrow> Car" where
  "car_run c calls = foldl car_step c calls"

text \<open>The sums the specification speaks of, over a list of modifiers.\<close>

definition sumIncrease :: "SpeedModifier list \<Rightarrow> real" where
  "sumIncrease ms = sum_list (map amount (filter (\<lambda>m. mtype m = Increase) ms))"

definition sumDecrease :: "SpeedModifier list \<Rightarrow> real" where
  "sumDecrease ms = sum_list (map amount (filter (\<lambda>m. mtype m \<noteq> Increase) ms))"

text \<open>The closed formula of the specification: one floor at 0 on the total.\<close>

definition specSpeed :: "real \<Rightarrow> SpeedModifier list \<Rightarrow> real" where
  "specSpeed base ms = max 0 (base + sumIncrease ms - sumDecrease ms)"

section \<open>TrackManager (shared/types/track.ts)\<close>

text \<open>
  The keys of \<open>activeCheckpoints\<close> and \<open>processedCheckpoints\<close> are the template
  strings \<open>brake_<point>\<close> and \<open>straight_<point>\<close>. Two such strings are equal exactly
  when prefix and number are, so a key is kept as the pair of both.
\<close>

type_synonym checkpoint_key = "checkpoint_type \<times> real"

definition checkpointKey :: "checkpoint_type \<Rightarrow> real \<Rightarrow> checkpoint_key" where
  "checkpointKey ty point = (ty, point)"

text \<open>
  A JavaScript \<open>Map\<close> iterates in insertion order, and three methods depend on that
  order, so \<open>activeCheckpoints\<close> is an association list: \<open>set\<close> on a new key appends,
  \<open>set\<close> on an old key replaces the value in place, \<open>delete\<close> removes the entry.
\<close>

definition map_has :: "('k \<times> 'v) list \<Rightarrow> 'k \<Rightarrow> bool" where
  "map_has m k \<longleftrightarrow> k \<in> set (map fst m)"

fun map_set :: "('k \<times> 'v) list \<Rightarrow> 'k \<Rightarrow> 'v \<Rightarrow> ('k \<times> 'v) list" where
  "map_set [] k v = [(k, v)]"
| "map_set (e # m) k v = (if fst e = k then (k, v) # m else e # map_set m k v)"

definition map_delete :: "('k \<times> 'v) list \<Rightarrow> 'k \<Rightarrow> ('k \<times> 'v) list" where
  "map_delete m k = filter (\<lambda>e. fst e \<noteq> k) m"

record TrackManager =
  track :: Track
  activeCheckpoints :: "(checkpoint_key \<times> CheckpointEvent) list"
  processedCheckpoints :: "checkpoint_key set"

definition newTrackManager :: "Track \<Rightarrow> TrackManager" where
  "newTrackManager t = \<lparr>track = t, activeCheckpoints = [], processedCheckpoints = {}\<rparr>"

text \<open>
  The \<open>for\<close> loop shared, up to the checkpoint type, by \<open>checkBrakePoints\<close> and
  \<open>checkStraightPoints\<close>: it returns from inside the loop at the first point that
  qualifies, and \<open>null\<close> (\<open>None\<close>) when the array is exhausted.
\<close>

fun checkPointsLoop ::
  "checkpoint_type \<Rightarrow> real list \<Rightarrow> real \<Rightarrow> real \<Rightarrow> TrackManager
     \<Rightarrow> CheckpointEvent option \<times> TrackManager" where
  "checkPointsLoop ty [] carDistance currentTime tm = (None, tm)"
| "checkPointsLoop ty (point # rest) carDistance currentTime tm =
     (let key = checkpointKey ty point
      in if carDistance \<ge> point \<and> \<not> map_has (activeCheckpoints tm) key
            \<and> key \<notin> processedCheckpoints tm
         then (let event = \<lparr>ev_type = ty, ev_distance = point,
                             ev_activatedAt = currentTime,
                             ev_duration = pointDuration (track tm)\<rparr>
               in (Some event,
                   tm\<lparr>activeCheckpoints := map_set (activeCheckpoints tm) key event,
                      processedCheckpoints := insert key (processedCheckpoints tm)\<rparr>))
         else checkPointsLoop ty rest carDistance currentTime tm)"

definition checkBrakePoints ::
  "real \<Rightarrow> real \<Rightarrow> TrackManager \<Rightarrow> CheckpointEvent option \<times> TrackManager" where
  "checkBrakePoints carDistance currentTime tm =
     checkPointsLoop BrakePoint (brakePoints (track tm)) carDistance currentTime tm"

definition checkStraightPoints ::
  "real \<Rightarrow> real \<Rightarrow> TrackManager \<Rightarrow> CheckpointEvent option \<times> TrackManager" where
  "checkStraightPoints carDistance currentTime tm =
     checkPointsLoop StraightPoint (straightPoints (track tm)) carDistance currentTime tm"

text \<open>\<open>getControlStates(currentTime)\<close>: the clean-up, then the loop that overwrites
  the state of a kind at every active checkpoint of that kind it meets.\<close>

definition inactiveControl :: ControlState where
  "inactiveControl = \<lparr>isActive = False, activatedAt = 0, cs_duration = 0\<rparr>"

definition expiredKeys :: "real \<Rightarrow> (checkpoint_key \<times> CheckpointEvent) list \<Rightarrow> checkpoint_key list" where
  "expiredKeys currentTime m =
     map fst (filter (\<lambda>e. currentTime - ev_activatedAt (snd e) \<ge> ev_duration (snd e)) m)"

fun setControlStates ::
  "real \<Rightarrow> (checkpoint_key \<times> CheckpointEvent) list \<Rightarrow> ControlStates \<Rightarrow> ControlStates" where
  "setControlStates currentTime [] st = st"
| "setControlStates currentTime (e # rest) st =
     (let checkpoint = snd e; timeElapsed = currentTime - ev_activatedAt checkpoint
      in if timeElapsed < ev_duration checkpoint
         then (if ev_type checkpoint = BrakePoint
               then setControlStates currentTime rest
                      (st\<lparr>brake := \<lparr>isActive = True,
                                     activatedAt = ev_activatedAt checkpoint,
                                     cs_duration = ev_duration checkpoint\<rparr>\<rparr>)
               else if ev_type checkpoint = StraightPoint
               then setControlStates currentTime rest
                      (st\<lparr>acceleration := \<lparr>isActive = True,
                                            activatedAt = ev_activatedAt checkpoint,
                                            cs_duration = ev_duration checkpoint\<rparr>\<rparr>)
               else setControlStates currentTime rest st)
         else setControlStates currentTime rest st)"

definition getControlStates :: "real \<Rightarrow> TrackManager \<Rightarrow> ControlStates \<times> TrackManager" where
  "getControlStates currentTime tm =
     (let remaining = foldl map_delete (activeCheckpoints tm)
                        (expiredKeys currentTime (activeCheckpoints tm))
      in (setControlStates currentTime remaining
            \<lparr>brake = inactiveControl, acceleration = inactiveControl\<rparr>,
          tm\<lparr>activeCheckpoints := remaining\<rparr>))"

text \<open>\<open>controlType === 'brake' ? 'brake_point' : 'straight_point'\<close>.\<close>

definition checkpointTypeOf :: "control_type \<Rightarrow> checkpoint_type" where
  "checkpointTypeOf controlType = (if controlType = Brake then BrakePoint else StraightPoint)"

text \<open>\<open>getRemainingDuration\<close> and \<open>isControlActive\<close>: each loop returns at the first
  active checkpoint of the type, in the order of the map.\<close>

fun remainingLoop :: "checkpoint_type \<Rightarrow> real \<Rightarrow> CheckpointEvent list \<Rightarrow> real" where
  "remainingLoop checkpointType currentTime [] = 0"
| "remainingLoop checkpointType currentTime (checkpoint # rest) =
     (if ev_type checkpoint = checkpointType
      then (let timeElapsed = currentTime - ev_activatedAt checkpoint
            in max 0 (ev_duration checkpoint - timeElapsed))
      else remainingLoop checkpointType currentTime rest)"

definition getRemainingDuration :: "control_type \<Rightarrow> real \<Rightarrow> TrackManager \<Rightarrow> real" where
  "getRemainingDuration controlType currentTime tm =
     remainingLoop (checkpointTypeOf controlType) currentTime (map snd (activeCheckpoints tm))"

fun activeLoop :: "checkpoint_type \<Rightarrow> real \<Rightarrow> CheckpointEvent list \<Rightarrow> bool" where
  "activeLoop checkpointType currentTime [] = False"
| "activeLoop checkpointType currentTime (checkpoint # rest) =
     (if ev_type checkpoint = checkpointType
      then (let timeElapsed = currentTime - ev_activatedAt checkpoint
            in timeElapsed < ev_duration checkpoint)
      else activeLoop checkpointType currentTime rest)"

definition isControlActive :: "control_type \<Rightarrow> real \<Rightarrow> TrackManager \<Rightarrow> bool" where
  "isControlActive controlType currentTime tm =
     activeLoop (checkpointTypeOf controlType) currentTime (map snd (activeCheckpoints tm))"

text \<open>\<open>reset()\<close> and \<open>deactivateControl(controlType)\<close>.\<close>

definition reset_track :: "TrackManager \<Rightarrow> TrackManager" where
  "reset_track tm = tm\<lparr>activeCheckpoints := [], processedCheckpoints := {}\<rparr>"

definition deactivateControl :: "control_type \<Rightarrow> TrackManager \<Rightarrow> TrackManager" where
  "deactivateControl controlType tm =
     (let keysToDelete = map fst (filter (\<lambda>e. ev_type (snd e) = checkpointTypeOf controlType)
                                     (activeCheckpoints tm))
      in tm\<lparr>activeCheckpoints := foldl map_delete (activeCheckpoints tm) keysToDelete\<rparr>)"

text \<open>
  A sequence of calls on one \<open>TrackManager\<close> with no \<open>reset\<close> among them; the run
  collects the events the two check methods return, in the order of the calls.
\<close>

datatype track_call =
    CheckBrakePoints real real
  | CheckStraightPoints real real
  | GetControlStates real
  | DeactivateControl control_type

definition eventList :: "CheckpointEvent option \<Rightarrow> CheckpointEvent list" where
  "eventList r = (case r of None \<Rightarrow> [] | Some event \<Rightarrow> [event])"

fun track_step :: "TrackManager \<Rightarrow> track_call \<Rightarrow> CheckpointEvent list \<times> TrackManager" where
  "track_step tm (CheckBrakePoints carDistance currentTime) =
     (let r = checkBrakePoints carDistance currentTime tm in (eventList (fst r), snd r))"
| "track_step tm (CheckStraightPoints carDistance currentTime) =
     (let r = checkStraightPoints carDistance currentTime tm in (eventList (fst r), snd r))"
| "track_step tm (GetControlStates currentTime) = ([], snd (getControlStates currentTime tm))"
| "track_step tm (DeactivateControl controlType) = ([], deactivateControl controlType tm)"

fun track_run :: "TrackManager \<Rightarrow> track_call list \<Rightarrow> CheckpointEvent list \<times> TrackManager" where
  "track_run tm [] = ([], tm)"
| "track_run tm (call # calls) =
     (let r = track_step tm call; r' = track_run (snd r) calls
      in (fst r @ fst r', snd r'))"

text \<open>The events of a run that belong to one configured trigger (kind, distance).\<close>

definition firedFor :: "checkpoint_type \<Rightarrow> real \<Rightarrow> CheckpointEvent list \<Rightarrow> CheckpointEvent list" where
  "firedFor ty point events = filter (\<lambda>e. ev_type e = ty \<and> ev_distance e = point) events"

section \<open>Validation (shared/validation)\<close>

text \<open>
  The two error classes, \<open>GameValidationError\<close> and \<open>CheckpointValidationError\<close>. A
  message is kept as a constructor that names the \<open>throw\<close> it comes from, with the
  numbers its template string prints.
\<close>

datatype array_kind = BrakeArray | StraightArray

datatype game_message =
    TrackDistanceMustBePositive
  | AverageSpeedMustBePositive
  | SpeedIncreaseMustBePositive
  | SpeedDecreaseMustBePositive
  | PointDurationMustBePositive
  | BrakePointOutsideBounds real
  | StraightPointOutsideBounds real
  | BrakePointsMustBeSorted
  | StraightPointsMustBeSorted

datatype checkpoint_message =
    ArrayCannotBeEmpty array_kind
  | PointOutsideBounds array_kind real real
  | ArrayContainsDuplicates array_kind
  | PointsMustBeSorted array_kind

datatype validation_error =
    GameValidationError game_message
  | CheckpointValidationError checkpoint_message

text \<open>The bounds loop: the first point with \<open>point < 0 || point >= distance\<close>.\<close>

fun firstOutside :: "real \<Rightarrow> real list \<Rightarrow> real option" where
  "firstOutside d [] = None"
| "firstOutside d (point # rest) =
     (if point < 0 \<or> point \<ge> d then Some point else firstOutside d rest)"

text \<open>\<open>[...xs].sort((a, b) => a - b)\<close>: the ascending sort of a copy.\<close>

definition sortAscending :: "real list \<Rightarrow> real list" where
  "sortAscending xs = sort xs"

text \<open>\<open>b[index]\<close> is \<open>undefined\<close> out of range, and \<open>val === undefined\<close> is false.\<close>

definition strictEqualsAt :: "'a list \<Rightarrow> 'a \<Rightarrow> nat \<Rightarrow> bool" where
  "strictEqualsAt b val index \<longleftrightarrow> index < length b \<and> val = b ! index"

text \<open>\<open>a.every((val, index) => val === b[index])\<close>.\<close>

definition everyEqualsAt :: "'a list \<Rightarrow> 'a list \<Rightarrow> bool" where
  "everyEqualsAt a b \<longleftrightarrow>
     list_all (\<lambda>p. strictEqualsAt b (fst p) (snd p)) (zip a [0..<length a])"

definition arraysEqual :: "'a list \<Rightarrow> 'a list \<Rightarrow> bool" where
  "arraysEqual a b \<longleftrightarrow> (if length a \<noteq> length b then False else everyEqualsAt a b)"

text \<open>\<open>validateTrack(track)\<close> of gameValidation.ts; \<open>Inl\<close> is the error thrown.\<close>

definition validateTrack :: "Track \<Rightarrow> validation_error + unit" where
  "validateTrack t =
     (if distance t \<le> 0 then Inl (GameValidationError TrackDistanceMustBePositive)
      else if averageSpeed t \<le> 0 then Inl (GameValidationError AverageSpeedMustBePositive)
      else if speedIncrease t \<le> 0 then Inl (GameValidationError SpeedIncreaseMustBePositive)
      else if speedDecrease t \<le> 0 then Inl (GameValidationError SpeedDecreaseMustBePositive)
      else if pointDuration t \<le> 0 then Inl (GameValidationError PointDurationMustBePositive)
      else case firstOutside (distance t) (brakePoints t) of
        Some point \<Rightarrow> Inl (GameValidationError (BrakePointOutsideBounds point))
      | None \<Rightarrow>
        (case firstOutside (distance t) (straightPoints t) of
           Some point \<Rightarrow> Inl (GameValidationError (StraightPointOutsideBounds point))
         | None \<Rightarrow>
           (let sortedBrakePoints = sortAscending (brakePoints t);
                sortedStraightPoints = sortAscending (straightPoints t)
            in if \<not> arraysEqual (brakePoints t) sortedBrakePoints
               then Inl (GameValidationError BrakePointsMustBeSorted)
               else if \<not> arraysEqual (straightPoints t) sortedStraightPoints
               then Inl (GameValidationError StraightPointsMustBeSorted)
               else Inr ())))"

text \<open>
  \<open>validateCheckpointArray(checkpoints, trackDistance, checkpointType)\<close> of
  checkpointValidation.ts. \<open>new Set(checkpoints).size\<close> is the number of distinct
  elements.
\<close>

definition validateCheckpointArray ::
  "real list \<Rightarrow> real \<Rightarrow> array_kind \<Rightarrow> validation_error + unit" where
  "validateCheckpointArray checkpoints trackDistance checkpointType =
     (if length checkpoints = 0
      then Inl (CheckpointValidationError (ArrayCannotBeEmpty checkpointType))
      else case firstOutside trackDistance checkpoints of
        Some checkpoint \<Rightarrow>
          Inl (CheckpointValidationError (PointOutsideBounds checkpointType checkpoint trackDistance))
      | None \<Rightarrow>
        (if card (set checkpoints) \<noteq> length checkpoints
         then Inl (CheckpointValidationError (ArrayContainsDuplicates checkpointType))
         else (let sortedCheckpoints = sortAscending checkpoints
               in if \<not> everyEqualsAt checkpoints sortedCheckpoints
                  then Inl (CheckpointValidationError (PointsMustBeSorted checkpointType))
                  else Inr ())))"

text \<open>
  The invariant of the specification on one trigger array: every point strictly
  inside (0, distance), ascending, no duplicates.
\<close>

definition triggerInvariant :: "real \<Rightarrow> real list \<Rightarrow> bool" where
  "triggerInvariant d points \<longleftrightarrow>
     list_all (\<lambda>p. 0 < p \<and> p < d) points \<and> sorted points \<and> distinct points"

text \<open>What the bounds loop of the code accepts: the interval closed at 0.\<close>

definition withinBounds :: "real \<Rightarrow> real list \<Rightarrow> bool" where
  "withinBounds d points \<longleftrightarrow> list_all (\<lambda>p. 0 \<le> p \<and> p < d) points"

text \<open>The five checks of \<open>validateTrack\<close> on the scalar fields.\<close>

definition positiveFields :: "Track \<Rightarrow> bool" where
  "positiveFields t \<longleftrightarrow>
     0 < distance t \<and> 0 < averageSpeed t \<and> 0 < speedIncrease t \<and>
     0 < speedDecrease t \<and> 0 < pointDuration t"

section \<open>The game hook (client/hooks/useGameState.ts)\<close>

text \<open>The React state \<open>GameState\<close>, and the interface \<open>InputCooldown\<close>.\<close>

record GameState =
  gs_track :: Track
  gs_car :: Car
  gameStatus :: game_status
  activeControls :: ControlStates
  raceStartTime :: "real option"

record InputCooldown =
  cd_brake :: real
  cd_acceleration :: real

text \<open>
  Everything one instance of the hook holds: the React state, the two managers, the
  two refs, and the callbacks handed to \<open>setTimeout\<close> that have not run yet, each with
  the time from which it may run and the control kind it captured. The track part of
  the \<open>GameConfig\<close> has the fields of \<open>Track\<close> but \<open>raceTime\<close>, and is kept as a
  \<open>Track\<close>. The \<open>GameTimer\<close> is left out: the two values the hook reads from it are
  parameters.
\<close>

record Hook =
  config :: Track
  gameState :: GameState
  carManager :: Car
  trackManager :: TrackManager
  inputCooldownRef :: InputCooldown
  activePenaltiesRef :: "control_type set"
  pendingTimeouts :: "(real \<times> control_type) list"

text \<open>Indexing \<open>obj[controlType]\<close> and assigning to it.\<close>

definition controlOf :: "control_type \<Rightarrow> ControlStates \<Rightarrow> ControlState" where
  "controlOf controlType cs = (case controlType of Brake \<Rightarrow> brake cs | Acceleration \<Rightarrow> acceleration cs)"

definition cooldownOf :: "control_type \<Rightarrow> InputCooldown \<Rightarrow> real" where
  "cooldownOf controlType cd =
     (case controlType of Brake \<Rightarrow> cd_brake cd | Acceleration \<Rightarrow> cd_acceleration cd)"

definition setCooldown :: "control_type \<Rightarrow> real \<Rightarrow> InputCooldown \<Rightarrow> InputCooldown" where
  "setCooldown controlType v cd =
     (case controlType of Brake \<Rightarrow> cd\<lparr>cd_brake := v\<rparr> | Acceleration \<Rightarrow> cd\<lparr>cd_acceleration := v\<rparr>)"

definition createInitialGameState :: "Track \<Rightarrow> GameState" where
  "createInitialGameState cfg =
     \<lparr>gs_track = cfg\<lparr>raceTime := None\<rparr>,
      gs_car = \<lparr>distanceCovered = 0, currentSpeed = averageSpeed cfg,
                baseSpeed = averageSpeed cfg, speedModifiers = []\<rparr>,
      gameStatus = Idle,
      activeControls = \<lparr>brake = inactiveControl, acceleration = inactiveControl\<rparr>,
      raceStartTime = None\<rparr>"

text \<open>The hook as \<open>useGameState(config)\<close> first returns it.\<close>

definition useGameState :: "Track \<Rightarrow> Hook" where
  "useGameState cfg =
     \<lparr>config = cfg,
      gameState = createInitialGameState cfg,
      carManager = gs_car (createInitialGameState cfg),
      trackManager = newTrackManager (gs_track (createInitialGameState cfg)),
      inputCooldownRef = \<lparr>cd_brake = 0, cd_acceleration = 0\<rparr>,
      activePenaltiesRef = {},
      pendingTimeouts = []\<rparr>"

text \<open>
  \<open>startRace()\<close>, with \<open>now\<close> the \<open>performance.now()\<close> stored as \<open>raceStartTime\<close>, and
  \<open>resetGame()\<close>. Neither touches a pending \<open>setTimeout\<close> callback: the hook keeps no
  handle of them.
\<close>

definition startRace :: "real \<Rightarrow> Hook \<Rightarrow> Hook" where
  "startRace now h =
     (let initialState = createInitialGameState (config h)
      in h\<lparr>carManager := reset_car (baseSpeed (gs_car initialState)),
           trackManager := reset_track (trackManager h),
           inputCooldownRef := \<lparr>cd_brake = 0, cd_acceleration = 0\<rparr>,
           activePenaltiesRef := {},
           gameState := initialState\<lparr>gameStatus := Running, raceStartTime := Some now\<rparr>\<rparr>)"

definition resetGame :: "Hook \<Rightarrow> Hook" where
  "resetGame h =
     (let initialState = createInitialGameState (config h)
      in h\<lparr>carManager := reset_car (baseSpeed (gs_car initialState)),
           trackManager := reset_track (trackManager h),
           inputCooldownRef := \<lparr>cd_brake = 0, cd_acceleration = 0\<rparr>,
           activePenaltiesRef := {},
           gameState := initialState\<rparr>)"

text \<open>
  The host running the \<open>setTimeout\<close> callbacks that are due at time \<open>now\<close>: each is
  \<open>activePenaltiesRef.current.delete(controlType)\<close>.
\<close>

definition runTimeouts :: "real \<Rightarrow> Hook \<Rightarrow> Hook" where
  "runTimeouts now h =
     (let due = filter (\<lambda>p. fst p \<le> now) (pendingTimeouts h)
      in h\<lparr>activePenaltiesRef := activePenaltiesRef h - set (map snd due),
           pendingTimeouts := filter (\<lambda>p. \<not> fst p \<le> now) (pendingTimeouts h)\<rparr>)"

text \<open>The reaction bonus of \<open>handleControlInput\<close>.\<close>

definition speedBonusFor :: "real \<Rightarrow> real \<Rightarrow> real" where
  "speedBonusFor speedIncr reactionTime =
     (if reactionTime \<le> 200 then speedIncr * 1.5
      else if reactionTime \<le> 500 then speedIncr * 1.2
      else speedIncr)"

text \<open>
  \<open>handleControlInput(controlType)\<close>. \<open>currentTime\<close> is the clock read at its entry;
  \<open>t0\<close> and \<open>t1\<close> are the two reads of the \<open>addSpeedModifier\<close> it may call. The callback
  given to \<open>setTimeout(_, 1000)\<close> runs no sooner than 1000ms after the call, which
  comes after the read \<open>t1\<close>: it is queued with \<open>t1 + 1000\<close> as the time from which
  \<open>runTimeouts\<close> may run it. The updater passed to \<open>setGameState\<close> is run at once.
\<close>

definition handleControlInput :: "control_type \<Rightarrow> real \<Rightarrow> real \<Rightarrow> real \<Rightarrow> Hook \<Rightarrow> Hook" where
  "handleControlInput controlType currentTime t0 t1 h =
     (if currentTime - cooldownOf controlType (inputCooldownRef h) < 100 then h
      else if gameStatus (gameState h) \<noteq> Running then h
      else if isControlActive controlType currentTime (trackManager h)
      then (let remainingDuration = getRemainingDuration controlType currentTime (trackManager h);
                reactionTime = currentTime
                   - activatedAt (controlOf controlType (activeControls (gameState h)));
                speedBonus = speedBonusFor (speedIncrease (gs_track (gameState h))) reactionTime;
                preciseRemainingDuration = max 0 remainingDuration;
                updatedCar = addSpeedModifier Increase speedBonus preciseRemainingDuration
                               t0 t1 (carManager h);
                r = getControlStates currentTime (deactivateControl controlType (trackManager h))
            in h\<lparr>carManager := updatedCar,
                 trackManager := snd r,
                 inputCooldownRef := setCooldown controlType currentTime (inputCooldownRef h),
                 gameState := (gameState h)\<lparr>gs_car := updatedCar, activeControls := fst r\<rparr>\<rparr>)
      else if controlType \<notin> activePenaltiesRef h
      then (let updatedCar = addSpeedModifier Decrease (speedDecrease (gs_track (gameState h)))
                               1000 t0 t1 (carManager h)
            in h\<lparr>carManager := updatedCar,
                 activePenaltiesRef := insert controlType (activePenaltiesRef h),
                 pendingTimeouts := pendingTimeouts h @ [(t1 + 1000, controlType)],
                 inputCooldownRef := setCooldown controlType currentTime (inputCooldownRef h),
                 gameState := (gameState h)\<lparr>gs_car := updatedCar\<rparr>\<rparr>)
      else h)"

text \<open>
  The three updaters of one frame of the game loop. \<open>deltaTime\<close> is
  \<open>timer.getDeltaTime()\<close>, \<open>elapsed\<close> is \<open>timer.getCurrentTime()\<close>, the other
  parameters are clock reads.
\<close>

definition updateCarPosition :: "real \<Rightarrow> real \<Rightarrow> real \<Rightarrow> Hook \<Rightarrow> Hook" where
  "updateCarPosition deltaTime now elapsed h =
     (if gameStatus (gameState h) \<noteq> Running then h
      else (let trk = gs_track (gameState h);
                updatedCar = updateCurrentSpeed now
                               (updatePosition deltaTime (distance trk) (carManager h))
            in if isRaceComplete (distance trk) updatedCar
               then h\<lparr>carManager := updatedCar,
                      gameState := (gameState h)\<lparr>gs_car := updatedCar, gameStatus := Finished,
                                                gs_track := trk\<lparr>raceTime := Some elapsed\<rparr>\<rparr>\<rparr>
               else h\<lparr>carManager := updatedCar,
                      gameState := (gameState h)\<lparr>gs_car := updatedCar\<rparr>\<rparr>))"

definition updateSpeedModifiers :: "real \<Rightarrow> Hook \<Rightarrow> Hook" where
  "updateSpeedModifiers now h =
     (if gameStatus (gameState h) \<noteq> Running then h
      else (let updatedCar = updateCurrentSpeed now (carManager h)
            in h\<lparr>carManager := updatedCar,
                 gameState := (gameState h)\<lparr>gs_car := updatedCar\<rparr>\<rparr>))"

definition updateControlStates :: "real \<Rightarrow> Hook \<Rightarrow> Hook" where
  "updateControlStates currentTime h =
     (if gameStatus (gameState h) \<noteq> Running then h
      else (let car = gs_car (gameState h);
                b = checkBrakePoints (distanceCovered car) currentTime (trackManager h);
                s = checkStraightPoints (distanceCovered car) currentTime (snd b);
                r = getControlStates currentTime (snd s);
                controlStates = fst r;
                old = activeControls (gameState h);
                brakeChanged = (isActive (brake controlStates) \<noteq> isActive (brake old)
                    \<or> activatedAt (brake controlStates) \<noteq> activatedAt (brake old));
                accelerationChanged =
                   (isActive (acceleration controlStates) \<noteq> isActive (acceleration old)
                    \<or> activatedAt (acceleration controlStates) \<noteq> activatedAt (acceleration old))
            in if brakeChanged \<or> accelerationChanged \<or> fst b \<noteq> None \<or> fst s \<noteq> None
               then h\<lparr>trackManager := snd r,
                      gameState := (gameState h)\<lparr>activeControls := controlStates\<rparr>\<rparr>
               else h\<lparr>trackManager := snd r\<rparr>))"

text \<open>What happens to a hook, one entry per task of the host.\<close>

datatype hook_event =
    StartRace real
  | ResetGame
  | HandleControlInput control_type real real real
  | Frame real real real real real
  | RunTimeouts real

fun hook_step :: "Hook \<Rightarrow> hook_event \<Rightarrow> Hook" where
  "hook_step h (StartRace now) = startRace now h"
| "hook_step h ResetGame = resetGame h"
| "hook_step h (HandleControlInput controlType currentTime t0 t1) =
     handleControlInput controlType currentTime t0 t1 h"
| "hook_step h (Frame deltaTime now elapsed now' currentTime) =
     updateControlStates currentTime
       (updateSpeedModifiers now' (updateCarPosition deltaTime now elapsed h))"
| "hook_step h (RunTimeouts now) = runTimeouts now h"

definition hook_run :: "Hook \<Rightarrow> hook_event list \<Rightarrow> Hook" where
  "hook_run h events = foldl hook_step h events"

text \<open>The decrease modifiers a car holds.\<close>

definition decreaseModifiers :: "Car \<Rightarrow> SpeedModifier list" where
  "decreaseModifiers c = filter (\<lambda>m. mtype m = Decrease) (speedModifiers c)"

text \<open>The configuration \<open>DEFAULT_GAME_CONFIG.track\<close>.\<close>

definition defaultTrack :: Track where
  "defaultTrack =
     \<lparr>distance = 1000, averageSpeed = 50, raceTime = None,
      brakePoints = [200, 400, 700, 900], straightPoints = [100, 350, 600, 850],
      speedIncrease = 15, pointDuration = 2000, speedDecrease = 10\<rparr>"

section \<open>Notions used to state the properties of CarManager\<close>

text \<open>No increase comes after a decrease in the list.\<close>

fun increasesFirst :: "SpeedModifier list \<Rightarrow> bool" where
  "increasesFirst [] = True"
| "increasesFirst (m # ms) =
     (if mtype m = Increase then increasesFirst ms
      else list_all (\<lambda>m. mtype m \<noteq> Increase) ms)"

text \<open>
  A car, and a call, whose speeds and magnitudes are not negative, as the data model
  of the specification has them.
\<close>

definition wellFormedCar :: "Car \<Rightarrow> bool" where
  "wellFormedCar c \<longleftrightarrow>
     0 \<le> currentSpeed c \<and> 0 \<le> baseSpeed c \<and> list_all (\<lambda>m. 0 \<le> amount m) (speedModifiers c)"

fun wellFormedCall :: "car_call \<Rightarrow> bool" where
  "wellFormedCall (AddSpeedModifier ty amt dur t0 currentTime) = (0 \<le> amt)"
| "wellFormedCall (Reset base) = (0 \<le> base)"
| "wellFormedCall _ = True"

text \<open>A call of a race on a track of length \<open>d\<close>: every advance is given \<open>d\<close>.\<close>

fun advancesOn :: "real \<Rightarrow> car_call \<Rightarrow> bool" where
  "advancesOn d (UpdatePosition deltaTime trackDistance) = (trackDistance = d)"
| "advancesOn d (Reset base) = (0 \<le> d)"
| "advancesOn d _ = True"

text \<open>Two cars with the same two live modifiers, added in opposite orders.\<close>

definition penaltyThenBoost :: Car where
  "penaltyThenBoost =
     \<lparr>distanceCovered = 0, currentSpeed = 10, baseSpeed = 10,
      speedModifiers =
        [\<lparr>mtype = Decrease, amount = 20, startTime = 0, duration = 1000\<rparr>,
         \<lparr>mtype = Increase, amount = 5, startTime = 0, duration = 1000\<rparr>]\<rparr>"

definition boostThenPenalty :: Car where
  "boostThenPenalty =
     \<lparr>distanceCovered = 0, currentSpeed = 10, baseSpeed = 10,
      speedModifiers =
        [\<lparr>mtype = Increase, amount = 5, startTime = 0, duration = 1000\<rparr>,
         \<lparr>mtype = Decrease, amount = 20, startTime = 0, duration = 1000\<rparr>]\<rparr>"

section \<open>Notions used to state the properties of TrackManager\<close>

text \<open>
  The condition under which the loop of \<open>checkBrakePoints\<close> or \<open>checkStraightPoints\<close>
  fires a point: the car has reached it and its key is in neither collection.
\<close>

definition qualifies :: "TrackManager \<Rightarrow> checkpoint_type \<Rightarrow> real \<Rightarrow> real \<Rightarrow> bool" where
  "qualifies tm ty carDistance point \<longleftrightarrow>
     carDistance \<ge> point \<and> \<not> map_has (activeCheckpoints tm) (checkpointKey ty point)
     \<and> checkpointKey ty point \<notin> processedCheckpoints tm"




text \<open>
  A track with two brake points 10m apart, and its manager after two successive
  checks at 215m, 16ms apart: both brake windows are open.
\<close>

definition closeBrakesTrack :: Track where
  "closeBrakesTrack = defaultTrack\<lparr>brakePoints := [200, 210]\<rparr>"

definition twoBrakesOpen :: TrackManager where
  "twoBrakesOpen =
     snd (checkBrakePoints 215 1016
       (snd (checkBrakePoints 215 1000 (newTrackManager closeBrakesTrack))))"

section \<open>Notions used to state the properties of the game hook\<close>

definition increaseModifiers :: "Car \<Rightarrow> SpeedModifier list" where
  "increaseModifiers c = filter (\<lambda>m. mtype m = Increase) (speedModifiers c)"

text \<open>The active checkpoint of a kind that comes first in the order of the map.\<close>

definition firstActive :: "control_type \<Rightarrow> TrackManager \<Rightarrow> CheckpointEvent option" where
  "firstActive controlType tm =
     find (\<lambda>cp. ev_type cp = checkpointTypeOf controlType) (map snd (activeCheckpoints tm))"

text \<open>
  The modifier the specification gives a valid reaction at time \<open>t\<close> to the one
  trigger \<open>cp\<close>: the boost \<open>speedIncr\<close> times 1.5, 1.2 or 1 by the reaction time, and what
  is left of the window, both measured from the activation of that trigger.
\<close>

definition reactionBoost :: "real \<Rightarrow> real \<Rightarrow> real \<Rightarrow> CheckpointEvent \<Rightarrow> SpeedModifier" where
  "reactionBoost speedIncr t t0 cp =
     \<lparr>mtype = Increase,
      amount = speedIncr
        * (if t - ev_activatedAt cp \<le> 200 then 1.5
           else if t - ev_activatedAt cp \<le> 500 then 1.2
           else 1),
      startTime = t0,
      duration = ev_duration cp - (t - ev_activatedAt cp)\<rparr>"

text \<open>
  A track that \<open>validateTrack\<close> accepts, with two brake points 1m apart; the first
  frames of a race on it, after which both brake windows are open (activated at 100
  and at 200); and a later frame at 2090, when both windows are still open.
\<close>

definition overlapTrack :: Track where
  "overlapTrack = defaultTrack\<lparr>brakePoints := [5, 6]\<rparr>"

definition bothBrakesOpen :: "hook_event list" where
  "bothBrakesOpen = [StartRace 0, Frame 100 100 100 100 100, Frame 100 200 200 200 200]"

definition firstBrakeRunningOut :: "hook_event list" where
  "firstBrakeRunningOut = bothBrakesOpen @ [Frame 100 2090 2090 2090 2090]"

text \<open>The two brake triggers of that race.\<close>

definition brakeAt5 :: CheckpointEvent where
  "brakeAt5 = \<lparr>ev_type = BrakePoint, ev_distance = 5, ev_activatedAt = 100, ev_duration = 2000\<rparr>"

definition brakeAt6 :: CheckpointEvent where
  "brakeAt6 = \<lparr>ev_type = BrakePoint, ev_distance = 6, ev_activatedAt = 200, ev_duration = 2000\<rparr>"

text \<open>
  The first two seconds of a race on the default track, in frames of 100ms, and the
  hook they lead to: the car is at 100m and the first straight point has just fired.
\<close>

definition firstSecondsOfRace :: "hook_event list" where
  "firstSecondsOfRace =
     StartRace 0 #
     map (\<lambda>i. Frame 100 (100 * real i) (100 * real i) (100 * real i) (100 * real i)) [1..<21]"

definition atFirstStraight :: Hook where
  "atFirstStraight =
     \<lparr>config = defaultTrack,
      gameState =
        \<lparr>gs_track = defaultTrack,
         gs_car = \<lparr>distanceCovered = 100, currentSpeed = 50, baseSpeed = 50, speedModifiers = []\<rparr>,
         gameStatus = Running,
         activeControls =
           \<lparr>brake = \<lparr>isActive = False, activatedAt = 0, cs_duration = 0\<rparr>,
            acceleration = \<lparr>isActive = True, activatedAt = 2000, cs_duration = 2000\<rparr>\<rparr>,
         raceStartTime = Some 0\<rparr>,
      carManager = \<lparr>distanceCovered = 100, currentSpeed = 50, baseSpeed = 50, speedModifiers = []\<rparr>,
      trackManager =
        \<lparr>track = defaultTrack,
         activeCheckpoints =
           [((StraightPoint, 100),
             \<lparr>ev_type = StraightPoint, ev_distance = 100, ev_activatedAt = 2000,
              ev_duration = 2000\<rparr>)],
         processedCheckpoints = {(StraightPoint, 100)}\<rparr>,
      inputCooldownRef = \<lparr>cd_brake = 0, cd_acceleration = 0\<rparr>,
      activePenaltiesRef = {}, pendingTimeouts = []\<rparr>"

text \<open>
  A penalty in a first race, a restart half a second later, a penalty in the second
  race, the callback of the first penalty running when it is due, and one more press.
\<close>

definition restartTrace :: "hook_event list" where
  "restartTrace =
     [StartRace 0, HandleControlInput Brake 1000 1000 1000, ResetGame, StartRace 1500,
      HandleControlInput Brake 1900 1900 1900, RunTimeouts 2000,
      HandleControlInput Brake 2050 2050 2050]"

text \<open>
  An event of one race in which no \<open>setTimeout\<close> callback runs from time \<open>d\<close> on, and
  a hook in which the penalty of kind \<open>k\<close> is marked and no callback of that kind may
  run before \<open>d\<close>.
\<close>

fun withinRace :: "real \<Rightarrow> hook_event \<Rightarrow> bool" where
  "withinRace d (StartRace now) = False"
| "withinRace d ResetGame = False"
| "withinRace d (RunTimeouts now) = (now < d)"
| "withinRace d _ = True"

definition penaltyHeld :: "control_type \<Rightarrow> real \<Rightarrow> Hook \<Rightarrow> bool" where
  "penaltyHeld k d h \<longleftrightarrow>
     k \<in> activePenaltiesRef h \<and> (\<forall>p \<in> set (pendingTimeouts h). snd p = k \<longrightarrow> d \<le> fst p)"

section \<open>Notions used to compare the queries of TrackManager\<close>

text \<open>
  A checkpoint of the map that is of a type and has not run out at a time, and the
  control state \<open>getControlStates\<close> builds from a checkpoint.
\<close>

definition liveOf :: "checkpoint_type \<Rightarrow> real \<Rightarrow> checkpoint_key \<times> CheckpointEvent \<Rightarrow> bool" where
  "liveOf ty t e \<longleftrightarrow>
     ev_type (snd e) = ty \<and> t - ev_activatedAt (snd e) < ev_duration (snd e)"

definition stateOf :: "CheckpointEvent \<Rightarrow> ControlState" where
  "stateOf cp =
     \<lparr>isActive = True, activatedAt = ev_activatedAt cp, cs_duration = ev_duration cp\<rparr>"

section \<open>Verified properties\<close>

subsection \<open>CarManager: position\<close>

lemma updatePosition_distance:
  "distanceCovered (updatePosition deltaTime trackDistance c) =
     min (distanceCovered c + currentSpeed c * (deltaTime / 1000)) trackDistance"
  by (simp add: updatePosition_def Let_def)

lemma step_within_track:
  "distanceCovered c \<le> d \<Longrightarrow> advancesOn d call \<Longrightarrow> distanceCovered (car_step c call) \<le> d"
  by (cases call)
     (simp_all add: updatePosition_distance addSpeedModifier_def updateCurrentSpeed_def
        Let_def reset_car_def)

lemma run_within_track:
  "distanceCovered c \<le> d \<Longrightarrow> list_all (advancesOn d) calls \<Longrightarrow>
   distanceCovered (car_run c calls) \<le> d"
  unfolding car_run_def
  by (induction calls arbitrary: c) (simp_all add: step_within_track)

text \<open>
  Claim C4. For every car, every \<open>deltaTime\<close> and every \<open>trackDistance\<close>,
  \<open>updatePosition\<close> sets \<open>distanceCovered\<close> to
  \<open>min (distanceCovered + currentSpeed * deltaTime / 1000) trackDistance\<close>; when the
  advance reaches or passes the end of the track the result is \<open>trackDistance\<close>
  exactly; and a car that starts within the track stays within it after any sequence
  of calls whose advances are all given that track distance.
\<close>

theorem updatePosition_clamped:
  "distanceCovered (updatePosition deltaTime trackDistance c) =
     min (distanceCovered c + currentSpeed c * (deltaTime / 1000)) trackDistance
   \<and> (trackDistance \<le> distanceCovered c + currentSpeed c * (deltaTime / 1000) \<longrightarrow>
        distanceCovered (updatePosition deltaTime trackDistance c) = trackDistance)
   \<and> distanceCovered (updatePosition deltaTime trackDistance c) \<le> trackDistance
   \<and> (distanceCovered c \<le> trackDistance \<and> list_all (advancesOn trackDistance) calls \<longrightarrow>
        distanceCovered (car_run c calls) \<le> trackDistance)"
  by (simp add: updatePosition_distance run_within_track)

theorem updatePosition_clamped_witness:
  "(1000::real) \<le> distanceCovered (reset_car 50) + currentSpeed (reset_car 50) * (3600000 / 1000)
   \<and> distanceCovered (updatePosition 3600000 1000 (reset_car 50)) = 1000
   \<and> distanceCovered (reset_car 50) \<le> 1000
   \<and> list_all (advancesOn 1000)
        [UpdatePosition 16 1000, AddSpeedModifier Increase 22.5 1950 2050 2050,
         UpdatePosition 100 1000, UpdateCurrentSpeed 2200, UpdatePosition 3600000 1000,
         UpdatePosition 16 1000]
   \<and> distanceCovered (car_run (reset_car 50)
        [UpdatePosition 16 1000, AddSpeedModifier Increase 22.5 1950 2050 2050,
         UpdatePosition 100 1000, UpdateCurrentSpeed 2200, UpdatePosition 3600000 1000,
         UpdatePosition 16 1000]) \<le> 1000"
  using updatePosition_clamped [of 3600000 1000 "reset_car 50"
        "[UpdatePosition 16 1000, AddSpeedModifier Increase 22.5 1950 2050 2050,
         UpdatePosition 100 1000, UpdateCurrentSpeed 2200, UpdatePosition 3600000 1000,
         UpdatePosition 16 1000]"]
  by (simp add: reset_car_def)

subsection \<open>CarManager: speed\<close>

lemma sumIncrease_Nil: "sumIncrease [] = 0"
  by (simp add: sumIncrease_def)

lemma sumDecrease_Nil: "sumDecrease [] = 0"
  by (simp add: sumDecrease_def)

lemma sumIncrease_Cons:
  "sumIncrease (m # ms) = (if mtype m = Increase then amount m else 0) + sumIncrease ms"
  by (simp add: sumIncrease_def)

lemma sumDecrease_Cons:
  "sumDecrease (m # ms) = (if mtype m = Increase then 0 else amount m) + sumDecrease ms"
  by (simp add: sumDecrease_def)

lemma applyModifiers_append:
  "applyModifiers s (xs @ ys) = applyModifiers (applyModifiers s xs) ys"
  by (induction xs arbitrary: s) simp_all

text \<open>The loop never ends below the unfloored total.\<close>

lemma applyModifiers_lower:
  "applyModifiers s ms \<ge> s + sumIncrease ms - sumDecrease ms"
proof (induction ms arbitrary: s)
  case Nil
  show ?case by (simp add: sumIncrease_Nil sumDecrease_Nil)
next
  case (Cons m ms)
  show ?case
  proof (cases "mtype m = Increase")
    case True
    with Cons[of "s + amount m"] show ?thesis
      by (simp add: sumIncrease_Cons sumDecrease_Cons)
  next
    case False
    have "max 0 (s - amount m) + sumIncrease ms - sumDecrease ms
            \<le> applyModifiers (max 0 (s - amount m)) ms" by (rule Cons)
    with False show ?thesis
      by (simp add: sumIncrease_Cons sumDecrease_Cons)
  qed
qed

lemma applyModifiers_nonneg:
  "0 \<le> s \<Longrightarrow> list_all (\<lambda>m. 0 \<le> amount m) ms \<Longrightarrow> 0 \<le> applyModifiers s ms"
  by (induction ms arbitrary: s) simp_all

lemma applyModifiers_upper:
  "0 \<le> s \<Longrightarrow> list_all (\<lambda>m. 0 \<le> amount m) ms \<Longrightarrow> applyModifiers s ms \<le> s + sumIncrease ms"
proof (induction ms arbitrary: s)
  case Nil
  show ?case by (simp add: sumIncrease_Nil)
next
  case (Cons m ms)
  show ?case
  proof (cases "mtype m = Increase")
    case True
    with Cons.prems Cons.IH[of "s + amount m"] show ?thesis
      by (simp add: sumIncrease_Cons)
  next
    case False
    from Cons.prems
    have "applyModifiers (max 0 (s - amount m)) ms \<le> max 0 (s - amount m) + sumIncrease ms"
      by (intro Cons.IH) simp_all
    moreover from Cons.prems have "max 0 (s - amount m) \<le> s" by simp
    ultimately have "applyModifiers (max 0 (s - amount m)) ms \<le> s + sumIncrease ms"
      by linarith
    then show ?thesis using False by (simp add: sumIncrease_Cons)
  qed
qed

lemma sumDecrease_nonneg: "list_all (\<lambda>m. 0 \<le> amount m) ms \<Longrightarrow> 0 \<le> sumDecrease ms"
  by (induction ms) (simp_all add: sumDecrease_Nil sumDecrease_Cons)

text \<open>Over decreases alone the floors at every step collapse into one.\<close>

lemma applyModifiers_decreases:
  "list_all (\<lambda>m. mtype m \<noteq> Increase) ms \<Longrightarrow> list_all (\<lambda>m. 0 \<le> amount m) ms \<Longrightarrow> 0 \<le> s \<Longrightarrow>
   applyModifiers s ms = max 0 (s - sumDecrease ms)"
proof (induction ms arbitrary: s)
  case Nil
  then show ?case by (simp add: sumDecrease_Nil)
next
  case (Cons m ms)
  from Cons.prems
  have "applyModifiers (max 0 (s - amount m)) ms = max 0 (max 0 (s - amount m) - sumDecrease ms)"
    by (intro Cons.IH) simp_all
  moreover have "0 \<le> sumDecrease ms"
    using Cons.prems(2) by (simp add: sumDecrease_nonneg)
  ultimately show ?case using Cons.prems by (simp add: sumDecrease_Cons max_def)
qed

lemma sumIncrease_decreases: "list_all (\<lambda>m. mtype m \<noteq> Increase) ms \<Longrightarrow> sumIncrease ms = 0"
  by (induction ms) (simp_all add: sumIncrease_Nil sumIncrease_Cons)

lemma applyModifiers_increasesFirst:
  "increasesFirst ms \<Longrightarrow> list_all (\<lambda>m. 0 \<le> amount m) ms \<Longrightarrow> 0 \<le> s \<Longrightarrow>
   applyModifiers s ms = specSpeed s ms"
proof (induction ms arbitrary: s)
  case Nil
  then show ?case by (simp add: specSpeed_def sumIncrease_Nil sumDecrease_Nil)
next
  case (Cons m ms)
  show ?case
  proof (cases "mtype m = Increase")
    case True
    with Cons.prems have "applyModifiers (s + amount m) ms = specSpeed (s + amount m) ms"
      by (intro Cons.IH) simp_all
    with True show ?thesis
      by (simp add: specSpeed_def sumIncrease_Cons sumDecrease_Cons algebra_simps)
  next
    case False
    with Cons.prems have d: "list_all (\<lambda>m. mtype m \<noteq> Increase) (m # ms)" by simp
    from applyModifiers_decreases[OF d Cons.prems(2) Cons.prems(3)] sumIncrease_decreases[OF d]
    show ?thesis by (simp add: specSpeed_def)
  qed
qed

lemma updateCurrentSpeed_modifiers:
  "speedModifiers (updateCurrentSpeed now c) = filter (notExpired now) (speedModifiers c)"
  by (simp add: updateCurrentSpeed_def Let_def)

lemma updateCurrentSpeed_speed:
  "currentSpeed (updateCurrentSpeed now c) =
     applyModifiers (baseSpeed c) (filter (notExpired now) (speedModifiers c))"
  by (simp add: updateCurrentSpeed_def Let_def)

lemma wellFormed_updateCurrentSpeed:
  "wellFormedCar c \<Longrightarrow> wellFormedCar (updateCurrentSpeed now c)"
  by (simp add: wellFormedCar_def updateCurrentSpeed_def Let_def applyModifiers_nonneg
        list_all_iff)

lemma wellFormed_step:
  "wellFormedCar c \<Longrightarrow> wellFormedCall call \<Longrightarrow> wellFormedCar (car_step c call)"
proof (cases call)
  case (UpdatePosition dt d)
  assume "wellFormedCar c" then show ?thesis using UpdatePosition
    by (simp add: wellFormedCar_def updatePosition_def Let_def)
next
  case (AddSpeedModifier ty amt dur t0 now)
  assume "wellFormedCar c" "wellFormedCall call"
  then have "wellFormedCar (c\<lparr>speedModifiers := speedModifiers c @
            [\<lparr>mtype = ty, amount = amt, startTime = t0, duration = dur\<rparr>]\<rparr>)"
    using AddSpeedModifier by (simp add: wellFormedCar_def)
  then show ?thesis using AddSpeedModifier
    by (simp add: addSpeedModifier_def wellFormed_updateCurrentSpeed)
next
  case (UpdateCurrentSpeed now)
  assume "wellFormedCar c" then show ?thesis using UpdateCurrentSpeed
    by (simp add: wellFormed_updateCurrentSpeed)
next
  case (Reset base)
  assume "wellFormedCall call" then show ?thesis using Reset
    by (simp add: wellFormedCar_def reset_car_def)
qed

lemma wellFormed_run:
  "wellFormedCar c \<Longrightarrow> list_all wellFormedCall calls \<Longrightarrow> wellFormedCar (car_run c calls)"
  unfolding car_run_def
  by (induction calls arbitrary: c) (simp_all add: wellFormed_step)

text \<open>
  Claim C2, as stated, fails: the floor is applied at every decrease, not once on the
  total, so the speed depends on the order of the modifiers. With base speed 10, a
  decrease of 20 followed by an increase of 5 gives 5, where the formula gives 0 and the
  opposite order gives 0.
\<close>

theorem updateCurrentSpeed_order_counterexample:
  "currentSpeed (updateCurrentSpeed 100 penaltyThenBoost) = 5
   \<and> specSpeed (baseSpeed penaltyThenBoost)
        (filter (notExpired 100) (speedModifiers penaltyThenBoost)) = 0
   \<and> currentSpeed (updateCurrentSpeed 100 boostThenPenalty) = 0"
  by (simp add: updateCurrentSpeed_speed penaltyThenBoost_def boostThenPenalty_def
        notExpired_def specSpeed_def sumIncrease_def sumDecrease_def)

text \<open>The loop of \<open>updateCurrentSpeed\<close> is a left fold over the modifiers.\<close>

lemma applyModifiers_foldl:
  "applyModifiers s ms =
     foldl (\<lambda>speed m. if mtype m = Increase then speed + amount m
                       else max 0 (speed - amount m)) s ms"
  by (induction ms arbitrary: s) simp_all

text \<open>
  Claim C2, amended. After \<open>updateCurrentSpeed\<close> at time \<open>now\<close> the car keeps exactly the
  modifiers with \<open>now - startTime < duration\<close>, in their order, and the current speed is
  the result of going through them in that order from the base speed: an increase is
  added, a decrease is subtracted and the running value is floored at 0 at that
  decrease. For a base speed and magnitudes that are not negative, the current speed
  lies between \<open>max 0 (baseSpeed + sum of increases - sum of decreases)\<close> and
  \<open>baseSpeed + sum of increases\<close> over those modifiers, and it equals the former
  whenever no increase comes after a decrease among them.
\<close>

theorem updateCurrentSpeed_fold:
  "speedModifiers (updateCurrentSpeed now c) = filter (notExpired now) (speedModifiers c)
   \<and> currentSpeed (updateCurrentSpeed now c)
       = foldl (\<lambda>speed m. if mtype m = Increase then speed + amount m
                          else max 0 (speed - amount m))
           (baseSpeed c) (filter (notExpired now) (speedModifiers c))
   \<and> (0 \<le> baseSpeed c \<and> list_all (\<lambda>m. 0 \<le> amount m) (speedModifiers c) \<longrightarrow>
        specSpeed (baseSpeed c) (speedModifiers (updateCurrentSpeed now c))
          \<le> currentSpeed (updateCurrentSpeed now c)
        \<and> currentSpeed (updateCurrentSpeed now c)
          \<le> baseSpeed c + sumIncrease (speedModifiers (updateCurrentSpeed now c))
        \<and> (increasesFirst (speedModifiers (updateCurrentSpeed now c)) \<longrightarrow>
             currentSpeed (updateCurrentSpeed now c)
               = specSpeed (baseSpeed c) (speedModifiers (updateCurrentSpeed now c))))"
proof -
  let ?kept = "filter (notExpired now) (speedModifiers c)"
  have kept: "list_all (\<lambda>m. 0 \<le> amount m) (speedModifiers c) \<Longrightarrow>
      list_all (\<lambda>m. 0 \<le> amount m) ?kept"
    by (simp add: list_all_iff)
  have lower: "0 \<le> baseSpeed c \<Longrightarrow> list_all (\<lambda>m. 0 \<le> amount m) (speedModifiers c) \<Longrightarrow>
      specSpeed (baseSpeed c) ?kept \<le> applyModifiers (baseSpeed c) ?kept"
    using applyModifiers_lower [of "baseSpeed c" ?kept]
      applyModifiers_nonneg [of "baseSpeed c" ?kept] kept
    by (simp add: specSpeed_def)
  have fold: "currentSpeed (updateCurrentSpeed now c)
       = foldl (\<lambda>speed m. if mtype m = Increase then speed + amount m
                          else max 0 (speed - amount m)) (baseSpeed c) ?kept"
    by (simp only: updateCurrentSpeed_speed applyModifiers_foldl)
  have rest: "0 \<le> baseSpeed c \<and> list_all (\<lambda>m. 0 \<le> amount m) (speedModifiers c) \<longrightarrow>
        specSpeed (baseSpeed c) (speedModifiers (updateCurrentSpeed now c))
          \<le> currentSpeed (updateCurrentSpeed now c)
        \<and> currentSpeed (updateCurrentSpeed now c)
          \<le> baseSpeed c + sumIncrease (speedModifiers (updateCurrentSpeed now c))
        \<and> (increasesFirst (speedModifiers (updateCurrentSpeed now c)) \<longrightarrow>
             currentSpeed (updateCurrentSpeed now c)
               = specSpeed (baseSpeed c) (speedModifiers (updateCurrentSpeed now c)))"
    using lower kept applyModifiers_upper [of "baseSpeed c" ?kept]
      applyModifiers_increasesFirst [of ?kept "baseSpeed c"]
    by (simp add: updateCurrentSpeed_modifiers updateCurrentSpeed_speed)
  from updateCurrentSpeed_modifiers [of now c] fold rest show ?thesis by blast
qed

theorem updateCurrentSpeed_fold_witness:
  "0 \<le> baseSpeed boostThenPenalty
   \<and> list_all (\<lambda>m. 0 \<le> amount m) (speedModifiers boostThenPenalty)
   \<and> increasesFirst (speedModifiers (updateCurrentSpeed 100 boostThenPenalty))
   \<and> speedModifiers (updateCurrentSpeed 100 boostThenPenalty) = speedModifiers boostThenPenalty
   \<and> currentSpeed (updateCurrentSpeed 100 boostThenPenalty)
       = specSpeed 10 (speedModifiers boostThenPenalty)
   \<and> currentSpeed (updateCurrentSpeed 100 penaltyThenBoost) \<le> 15
   \<and> currentSpeed (updateCurrentSpeed 100 penaltyThenBoost) = 5"
  using updateCurrentSpeed_fold [of 100 boostThenPenalty]
    updateCurrentSpeed_fold [of 100 penaltyThenBoost]
  by (simp add: boostThenPenalty_def penaltyThenBoost_def notExpired_def sumIncrease_def
        updateCurrentSpeed_def Let_def)

text \<open>
  Claim C7, as stated, fails in its second half: decreases that sum to more than the
  base speed plus all increases do not always give 0. With base speed 10, a decrease of
  20 followed by an increase of 5 (20 > 10 + 5) gives 5.
\<close>

theorem recompute_not_zero_counterexample:
  "baseSpeed penaltyThenBoost
      + sumIncrease (filter (notExpired 100) (speedModifiers penaltyThenBoost))
     < sumDecrease (filter (notExpired 100) (speedModifiers penaltyThenBoost))
   \<and> currentSpeed (updateCurrentSpeed 100 penaltyThenBoost) \<noteq> 0"
  by (simp add: updateCurrentSpeed_speed penaltyThenBoost_def
        notExpired_def sumIncrease_def sumDecrease_def)

text \<open>
  Claim C7, amended. From a car whose speeds and magnitudes are not negative, after
  every sequence of \<open>addSpeedModifier\<close> (with a magnitude that is not negative),
  \<open>updateCurrentSpeed\<close>, \<open>updatePosition\<close> and \<open>reset\<close> (with a base speed that is not
  negative) the current speed is not negative. When the decreases in force sum to at
  least the base speed plus the increases in force, and no increase comes after a
  decrease among them, \<open>updateCurrentSpeed\<close> yields exactly 0.
\<close>

theorem currentSpeed_never_negative:
  "(wellFormedCar c \<and> list_all wellFormedCall calls \<longrightarrow> 0 \<le> currentSpeed (car_run c calls))
   \<and> (0 \<le> baseSpeed c \<and> list_all (\<lambda>m. 0 \<le> amount m) (speedModifiers c)
        \<and> increasesFirst (filter (notExpired now) (speedModifiers c))
        \<and> baseSpeed c + sumIncrease (filter (notExpired now) (speedModifiers c))
             \<le> sumDecrease (filter (notExpired now) (speedModifiers c))
       \<longrightarrow> currentSpeed (updateCurrentSpeed now c) = 0)"
proof -
  let ?kept = "filter (notExpired now) (speedModifiers c)"
  have run: "wellFormedCar c \<Longrightarrow> list_all wellFormedCall calls \<Longrightarrow>
      0 \<le> currentSpeed (car_run c calls)"
    using wellFormed_run [of c calls] by (simp add: wellFormedCar_def)
  have zero: "0 \<le> baseSpeed c \<Longrightarrow> list_all (\<lambda>m. 0 \<le> amount m) (speedModifiers c) \<Longrightarrow>
      increasesFirst ?kept \<Longrightarrow> baseSpeed c + sumIncrease ?kept \<le> sumDecrease ?kept \<Longrightarrow>
      currentSpeed (updateCurrentSpeed now c) = 0"
  proof -
    assume a: "0 \<le> baseSpeed c" "list_all (\<lambda>m. 0 \<le> amount m) (speedModifiers c)"
      "increasesFirst ?kept" "baseSpeed c + sumIncrease ?kept \<le> sumDecrease ?kept"
    from a(2) have "list_all (\<lambda>m. 0 \<le> amount m) ?kept" by (simp add: list_all_iff)
    with a(1,3) have "applyModifiers (baseSpeed c) ?kept = specSpeed (baseSpeed c) ?kept"
      by (simp add: applyModifiers_increasesFirst)
    with a(4) show ?thesis by (simp add: updateCurrentSpeed_speed specSpeed_def)
  qed
  from run zero show ?thesis by blast
qed

theorem currentSpeed_never_negative_witness:
  "wellFormedCar (reset_car 10)
   \<and> list_all wellFormedCall
        [AddSpeedModifier Decrease 20 1000 0 0, UpdatePosition 16 1000,
         AddSpeedModifier Decrease 20 1000 16 16, UpdateCurrentSpeed 32]
   \<and> 0 \<le> currentSpeed (car_run (reset_car 10)
        [AddSpeedModifier Decrease 20 1000 0 0, UpdatePosition 16 1000,
         AddSpeedModifier Decrease 20 1000 16 16, UpdateCurrentSpeed 32])
   \<and> 0 \<le> baseSpeed boostThenPenalty
   \<and> list_all (\<lambda>m. 0 \<le> amount m) (speedModifiers boostThenPenalty)
   \<and> increasesFirst (filter (notExpired 100) (speedModifiers boostThenPenalty))
   \<and> baseSpeed boostThenPenalty
        + sumIncrease (filter (notExpired 100) (speedModifiers boostThenPenalty))
       \<le> sumDecrease (filter (notExpired 100) (speedModifiers boostThenPenalty))
   \<and> currentSpeed (updateCurrentSpeed 100 boostThenPenalty) = 0"
  using currentSpeed_never_negative [of "reset_car 10"
        "[AddSpeedModifier Decrease 20 1000 0 0, UpdatePosition 16 1000,
         AddSpeedModifier Decrease 20 1000 16 16, UpdateCurrentSpeed 32]" 100]
    currentSpeed_never_negative [of boostThenPenalty "[]" 100]
  by (simp add: wellFormedCar_def reset_car_def boostThenPenalty_def notExpired_def
        sumIncrease_def sumDecrease_def)

text \<open>
  Claim C9, as stated, fails: \<open>addSpeedModifier\<close> has no check and no error. An increase
  of magnitude -5 is stored as it is and lowers the speed of a fresh car from 50 to 45.
\<close>

theorem addSpeedModifier_accepts_counterexample:
  "speedModifiers (addSpeedModifier Increase (- 5) 1000 0 0 (reset_car 50))
     = [\<lparr>mtype = Increase, amount = - 5, startTime = 0, duration = 1000\<rparr>]
   \<and> currentSpeed (addSpeedModifier Increase (- 5) 1000 0 0 (reset_car 50)) = 45
   \<and> speedModifiers (reset_car 50) = []
   \<and> currentSpeed (reset_car 50) = 50"
  by (simp add: addSpeedModifier_def updateCurrentSpeed_def Let_def reset_car_def notExpired_def)

text \<open>
  Claim C9, amended. \<open>addSpeedModifier\<close> never rejects a call. With a duration that is
  not positive (and a clock that does not run backwards) the pushed modifier is pruned
  within the same call, which then does what \<open>updateCurrentSpeed\<close> alone does. With a
  duration still running at the recomputation, the modifier is stored last with the
  magnitude it was given, whatever its sign, and the speed is recomputed with it.
\<close>

theorem addSpeedModifier_total:
  "(dur \<le> 0 \<and> t0 \<le> now \<longrightarrow>
      addSpeedModifier ty amt dur t0 now c = updateCurrentSpeed now c)
   \<and> (now - t0 < dur \<longrightarrow>
        speedModifiers (addSpeedModifier ty amt dur t0 now c)
          = speedModifiers (updateCurrentSpeed now c)
              @ [\<lparr>mtype = ty, amount = amt, startTime = t0, duration = dur\<rparr>]
        \<and> currentSpeed (addSpeedModifier ty amt dur t0 now c)
          = (if ty = Increase then currentSpeed (updateCurrentSpeed now c) + amt
             else max 0 (currentSpeed (updateCurrentSpeed now c) - amt)))"
  by (simp add: addSpeedModifier_def updateCurrentSpeed_def Let_def notExpired_def
        applyModifiers_append)

theorem addSpeedModifier_total_witness:
  "(0::real) \<le> 0 \<and> (5::real) \<le> 5
   \<and> addSpeedModifier Decrease 10 0 5 5 (reset_car 50) = updateCurrentSpeed 5 (reset_car 50)
   \<and> (5::real) - 5 < 1000
   \<and> currentSpeed (addSpeedModifier Decrease (- 10) 1000 5 5 (reset_car 50)) = 60"
  using addSpeedModifier_total [of 0 5 5 Decrease 10 "reset_car 50"]
    addSpeedModifier_total [of 1000 5 5 Decrease "- 10" "reset_car 50"]
  by (simp add: updateCurrentSpeed_def Let_def reset_car_def)

subsection \<open>TrackManager\<close>


lemma loop_find:
  "checkPointsLoop ty pts d t tm =
     (case find (qualifies tm ty d) pts of
        None \<Rightarrow> (None, tm)
      | Some p \<Rightarrow>
          (Some \<lparr>ev_type = ty, ev_distance = p, ev_activatedAt = t,
                 ev_duration = pointDuration (track tm)\<rparr>,
           tm\<lparr>activeCheckpoints := map_set (activeCheckpoints tm) (checkpointKey ty p)
                  \<lparr>ev_type = ty, ev_distance = p, ev_activatedAt = t,
                   ev_duration = pointDuration (track tm)\<rparr>,
              processedCheckpoints := insert (checkpointKey ty p) (processedCheckpoints tm)\<rparr>))"
  by (induction pts) (simp_all add: qualifies_def Let_def)

lemma find_Some_member: "find P xs = Some x \<Longrightarrow> x \<in> set xs \<and> P x"
  by (induction xs) (auto split: if_splits)


lemma loop_processed_mono:
  "processedCheckpoints tm \<subseteq> processedCheckpoints (snd (checkPointsLoop ty pts d t tm))"
  by (auto simp: loop_find split: option.splits)

lemma loop_track: "track (snd (checkPointsLoop ty pts d t tm)) = track tm"
  by (simp add: loop_find split: option.splits)


lemma getControlStates_processed:
  "processedCheckpoints (snd (getControlStates t tm)) = processedCheckpoints tm"
  by (simp add: getControlStates_def Let_def)

lemma deactivateControl_processed:
  "processedCheckpoints (deactivateControl k tm) = processedCheckpoints tm"
  by (simp add: deactivateControl_def Let_def)

lemma step_processed_mono:
  "processedCheckpoints tm \<subseteq> processedCheckpoints (snd (track_step tm call))"
  by (cases call)
     (simp_all add: checkBrakePoints_def checkStraightPoints_def loop_processed_mono Let_def
        getControlStates_processed deactivateControl_processed)




lemma run_processed_mono:
  "processedCheckpoints tm \<subseteq> processedCheckpoints (snd (track_run tm calls))"
proof (induction calls arbitrary: tm)
  case Nil
  show ?case by simp
next
  case (Cons call calls)
  have "processedCheckpoints tm \<subseteq> processedCheckpoints (snd (track_step tm call))"
    by (rule step_processed_mono)
  also have "\<dots> \<subseteq> processedCheckpoints (snd (track_run (snd (track_step tm call)) calls))"
    by (rule Cons.IH)
  finally show ?case by (simp add: Let_def)
qed




text \<open>The definitions that evaluate a track manager on concrete input.\<close>

lemmas track_eval =
  checkBrakePoints_def checkStraightPoints_def newTrackManager_def defaultTrack_def
  Let_def checkpointKey_def map_has_def map_delete_def getControlStates_def expiredKeys_def
  getRemainingDuration_def isControlActive_def checkpointTypeOf_def inactiveControl_def
  deactivateControl_def eventList_def firedFor_def






text \<open>
  Claim C8 on the code. With two brake windows open (activated at 1000 and at 1016),
  at time 1020 \<open>getControlStates\<close> reports the later activation, 1016, while
  \<open>getRemainingDuration\<close> answers for the earlier one (2000 - 20 = 1980). At time 3005,
  when only the earlier window has run out, \<open>isControlActive\<close> answers false while
  \<open>getControlStates\<close> reports the brake control active.
\<close>

theorem control_queries_disagree:
  "map (ev_activatedAt \<circ> snd) (activeCheckpoints twoBrakesOpen) = [1000, 1016]
   \<and> brake (fst (getControlStates 1020 twoBrakesOpen))
       = \<lparr>isActive = True, activatedAt = 1016, cs_duration = 2000\<rparr>
   \<and> getRemainingDuration Brake 1020 twoBrakesOpen = 1980
   \<and> isControlActive Brake 1020 twoBrakesOpen
   \<and> \<not> isControlActive Brake 3005 twoBrakesOpen
   \<and> isActive (brake (fst (getControlStates 3005 twoBrakesOpen)))"
  by (simp add: twoBrakesOpen_def closeBrakesTrack_def track_eval)

subsection \<open>Validation\<close>

lemma firstOutside_None: "firstOutside d ps = None \<longleftrightarrow> withinBounds d ps"
  by (induction ps) (auto simp: withinBounds_def)

lemma firstOutside_Some: "firstOutside d ps = Some p \<Longrightarrow> p \<in> set ps \<and> (p < 0 \<or> p \<ge> d)"
  by (induction ps) (auto split: if_splits)

lemma everyEqualsAt_nth:
  "everyEqualsAt a b \<longleftrightarrow> (\<forall>i < length a. i < length b \<and> a ! i = b ! i)"
proof
  assume h: "everyEqualsAt a b"
  show "\<forall>i < length a. i < length b \<and> a ! i = b ! i"
  proof (intro allI impI)
    fix i assume i: "i < length a"
    then have "(a ! i, i) \<in> set (zip a [0..<length a])"
      by (force simp: set_zip)
    with h show "i < length b \<and> a ! i = b ! i"
      by (auto simp: everyEqualsAt_def strictEqualsAt_def list_all_iff)
  qed
next
  assume "\<forall>i < length a. i < length b \<and> a ! i = b ! i"
  then show "everyEqualsAt a b"
    by (auto simp: everyEqualsAt_def strictEqualsAt_def list_all_iff set_zip)
qed

lemma everyEqualsAt_same_length:
  "length a = length b \<Longrightarrow> everyEqualsAt a b \<longleftrightarrow> a = b"
  by (auto simp: everyEqualsAt_nth list_eq_iff_nth_eq)

lemma arraysEqual_eq: "arraysEqual a b \<longleftrightarrow> a = b"
  by (auto simp: arraysEqual_def everyEqualsAt_same_length)

lemma equals_sorted: "xs = sortAscending xs \<longleftrightarrow> sorted xs"
  unfolding sortAscending_def
  by (metis sorted_sort sorted_sort_id)

lemma everyEqualsAt_sorted: "everyEqualsAt xs (sortAscending xs) \<longleftrightarrow> sorted xs"
  using equals_sorted [of xs]
  by (simp add: everyEqualsAt_same_length sortAscending_def)

lemma arraysEqual_sorted: "arraysEqual xs (sortAscending xs) \<longleftrightarrow> sorted xs"
  using equals_sorted [of xs] by (simp add: arraysEqual_eq)

lemma size_distinct: "card (set xs) \<noteq> length xs \<longleftrightarrow> \<not> distinct xs"
  using card_distinct distinct_card by blast

lemma validateCheckpointArray_ok:
  "validateCheckpointArray cps d k = Inr () \<longleftrightarrow>
     cps \<noteq> [] \<and> withinBounds d cps \<and> distinct cps \<and> sorted cps"
  by (auto simp: validateCheckpointArray_def Let_def size_distinct everyEqualsAt_sorted
        firstOutside_None[symmetric] split: option.splits)

lemma validateTrack_ok:
  "validateTrack t = Inr () \<longleftrightarrow>
     positiveFields t \<and> withinBounds (distance t) (brakePoints t)
     \<and> withinBounds (distance t) (straightPoints t)
     \<and> sorted (brakePoints t) \<and> sorted (straightPoints t)"
  by (auto simp: validateTrack_def Let_def arraysEqual_sorted positiveFields_def
        firstOutside_None[symmetric] split: option.splits)

lemma validateTrack_error_class:
  "validateTrack t = Inl e \<Longrightarrow> \<exists>m. e = GameValidationError m"
  by (auto simp: validateTrack_def Let_def split: option.splits if_splits)

lemma validateCheckpointArray_error_class:
  "validateCheckpointArray cps d k = Inl e \<Longrightarrow> \<exists>m. e = CheckpointValidationError m"
  by (auto simp: validateCheckpointArray_def Let_def split: option.splits if_splits)

text \<open>
  Claim C10, as stated, fails: both validators test \<open>point < 0\<close>, so a trigger point
  equal to 0, outside the open interval, is accepted.
\<close>

theorem validators_accept_zero_counterexample:
  "\<not> triggerInvariant 1000 [0, 200]
   \<and> validateTrack (defaultTrack\<lparr>brakePoints := [0, 200]\<rparr>) = Inr ()
   \<and> validateCheckpointArray [0, 200] 1000 BrakeArray = Inr ()"
  by (simp add: triggerInvariant_def validateTrack_def validateCheckpointArray_def
        defaultTrack_def Let_def arraysEqual_def everyEqualsAt_def strictEqualsAt_def
        sortAscending_def)

text \<open>
  Claim C10, amended. \<open>validateCheckpointArray\<close> raises a
  \<open>CheckpointValidationError\<close> exactly when the array is empty, or has a point outside
  the interval from 0 (included) to the track distance (excluded), or has a duplicate,
  or is not ascending. \<open>validateTrack\<close> raises only \<open>GameValidationError\<close>s; it raises
  one whenever a scalar field is not positive, a trigger point lies outside that
  interval or a trigger array is not ascending, and none on a track whose scalar
  fields are positive and whose trigger arrays lie in that interval and are strictly
  ascending.
\<close>

theorem validators_accept:
  "(validateCheckpointArray cps d k = Inr () \<longleftrightarrow>
      cps \<noteq> [] \<and> withinBounds d cps \<and> distinct cps \<and> sorted cps)
   \<and> (\<forall>e. validateCheckpointArray cps d k = Inl e \<longrightarrow> (\<exists>m. e = CheckpointValidationError m))
   \<and> (validateTrack t = Inr () \<longrightarrow>
        positiveFields t \<and> withinBounds (distance t) (brakePoints t)
        \<and> withinBounds (distance t) (straightPoints t)
        \<and> sorted (brakePoints t) \<and> sorted (straightPoints t))
   \<and> (positiveFields t \<and> withinBounds (distance t) (brakePoints t)
        \<and> withinBounds (distance t) (straightPoints t)
        \<and> sorted (brakePoints t) \<and> distinct (brakePoints t)
        \<and> sorted (straightPoints t) \<and> distinct (straightPoints t)
       \<longrightarrow> validateTrack t = Inr ())
   \<and> (\<forall>e. validateTrack t = Inl e \<longrightarrow> (\<exists>m. e = GameValidationError m))"
  using validateCheckpointArray_ok [of cps d k] validateTrack_ok [of t]
    validateTrack_error_class [of t] validateCheckpointArray_error_class [of cps d k]
  by blast

theorem validators_accept_witness:
  "positiveFields defaultTrack
   \<and> withinBounds (distance defaultTrack) (brakePoints defaultTrack)
   \<and> withinBounds (distance defaultTrack) (straightPoints defaultTrack)
   \<and> sorted (brakePoints defaultTrack) \<and> distinct (brakePoints defaultTrack)
   \<and> sorted (straightPoints defaultTrack) \<and> distinct (straightPoints defaultTrack)
   \<and> validateTrack defaultTrack = Inr ()
   \<and> validateCheckpointArray [100, 350, 600, 850] 1000 StraightArray = Inr ()
   \<and> validateCheckpointArray [350, 100] 1000 StraightArray \<noteq> Inr ()
   \<and> validateTrack (defaultTrack\<lparr>brakePoints := [200, 1000]\<rparr>) \<noteq> Inr ()"
  using validators_accept [of "[100, 350, 600, 850]" 1000 StraightArray defaultTrack]
    validators_accept [of "[350, 100]" 1000 StraightArray
       "defaultTrack\<lparr>brakePoints := [200, 1000]\<rparr>"]
  by (simp add: positiveFields_def withinBounds_def defaultTrack_def)

subsection \<open>The game hook\<close>

lemma activeLoop_find:
  "activeLoop ty t cps \<longleftrightarrow>
     (\<exists>cp. find (\<lambda>cp. ev_type cp = ty) cps = Some cp \<and> t - ev_activatedAt cp < ev_duration cp)"
  by (induction cps) (simp_all add: Let_def)

lemma remainingLoop_find:
  "find (\<lambda>cp. ev_type cp = ty) cps = Some cp \<Longrightarrow>
   remainingLoop ty t cps = max 0 (ev_duration cp - (t - ev_activatedAt cp))"
  by (induction cps) (auto simp: Let_def split: if_splits)

lemma activeLoop_none: "\<forall>cp \<in> set cps. ev_type cp \<noteq> ty \<Longrightarrow> \<not> activeLoop ty t cps"
  by (induction cps) simp_all

lemma foldl_map_delete: "foldl map_delete m ks = filter (\<lambda>e. fst e \<notin> set ks) m"
proof (induction ks arbitrary: m)
  case Nil
  show ?case by simp
next
  case (Cons k ks)
  have "filter (\<lambda>e. fst e \<notin> set ks) (filter (\<lambda>e. fst e \<noteq> k) m)
          = filter (\<lambda>e. fst e \<notin> set (k # ks)) m"
    by (induction m) auto
  moreover have "foldl map_delete m (k # ks) = filter (\<lambda>e. fst e \<notin> set ks) (map_delete m k)"
    by (simp add: Cons.IH)
  moreover have "map_delete m k = filter (\<lambda>e. fst e \<noteq> k) m"
    by (simp add: map_delete_def)
  ultimately show ?case by simp
qed

lemma deactivateControl_none:
  "\<forall>e \<in> set (activeCheckpoints (deactivateControl k tm)). ev_type (snd e) \<noteq> checkpointTypeOf k"
proof
  fix e assume e: "e \<in> set (activeCheckpoints (deactivateControl k tm))"
  let ?own = "filter (\<lambda>e. ev_type (snd e) = checkpointTypeOf k) (activeCheckpoints tm)"
  from e have m: "e \<in> set (activeCheckpoints tm)" and n: "fst e \<notin> set (map fst ?own)"
    by (simp_all add: deactivateControl_def Let_def foldl_map_delete)
  show "ev_type (snd e) \<noteq> checkpointTypeOf k"
  proof
    assume "ev_type (snd e) = checkpointTypeOf k"
    with m have "e \<in> set ?own" by simp
    then have "fst e \<in> set (map fst ?own)" by (simp only: set_map) (rule imageI)
    with n show False by contradiction
  qed
qed

lemma getControlStates_subset:
  "set (activeCheckpoints (snd (getControlStates t tm))) \<subseteq> set (activeCheckpoints tm)"
  by (auto simp: getControlStates_def Let_def foldl_map_delete)

lemma isControlActive_after_deactivate:
  "\<not> isControlActive k t' (snd (getControlStates t (deactivateControl k tm)))"
proof -
  have "\<forall>cp \<in> set (map snd (activeCheckpoints (snd (getControlStates t (deactivateControl k tm))))).
          ev_type cp \<noteq> checkpointTypeOf k"
    using deactivateControl_none [of k tm] getControlStates_subset [of t "deactivateControl k tm"]
    by auto
  then show ?thesis
    unfolding isControlActive_def by (rule activeLoop_none)
qed

lemma speedBonusFor_tiers:
  "speedBonusFor s r = s * (if r \<le> 200 then 1.5 else if r \<le> 500 then 1.2 else 1)"
  by (simp add: speedBonusFor_def)

lemma addSpeedModifier_modifiers:
  "speedModifiers (addSpeedModifier ty amt dur t0 t1 c) =
     filter (notExpired t1)
       (speedModifiers c @ [\<lparr>mtype = ty, amount = amt, startTime = t0, duration = dur\<rparr>])"
  by (simp add: addSpeedModifier_def updateCurrentSpeed_def Let_def)

text \<open>The green branch, under its three guards.\<close>

lemma handleControlInput_green:
  assumes "gameStatus (gameState h) = Running"
    and "\<not> t - cooldownOf k (inputCooldownRef h) < 100"
    and "isControlActive k t (trackManager h)"
  shows "carManager (handleControlInput k t t0 t1 h) =
           addSpeedModifier Increase
             (speedBonusFor (speedIncrease (gs_track (gameState h)))
                (t - activatedAt (controlOf k (activeControls (gameState h)))))
             (max 0 (getRemainingDuration k t (trackManager h))) t0 t1 (carManager h)"
    and "trackManager (handleControlInput k t t0 t1 h) =
           snd (getControlStates t (deactivateControl k (trackManager h)))"
    and "gameStatus (gameState (handleControlInput k t t0 t1 h)) = Running"
  using assms by (simp_all add: handleControlInput_def Let_def)

text \<open>A press on a control that is not active adds no increase.\<close>

lemma handleControlInput_red_increases:
  assumes "\<not> isControlActive k t (trackManager h)"
  shows "increaseModifiers (carManager (handleControlInput k t t0 t1 h)) = increaseModifiers (carManager h)
       \<or> increaseModifiers (carManager (handleControlInput k t t0 t1 h))
            = filter (notExpired t1) (increaseModifiers (carManager h))"
  using assms
proof -
  have pen: "increaseModifiers (addSpeedModifier Decrease amt 1000 t0 t1 c)
               = filter (notExpired t1) (increaseModifiers c)" for amt c
    by (induction "speedModifiers c")
       (simp_all add: increaseModifiers_def addSpeedModifier_modifiers filter_filter conj_commute)
  show ?thesis
    using assms by (simp add: handleControlInput_def Let_def pen)
qed

text \<open>The definitions that evaluate a hook on concrete input.\<close>

lemmas hook_eval =
  hook_run_def useGameState_def createInitialGameState_def startRace_def resetGame_def
  runTimeouts_def handleControlInput_def updateCarPosition_def updateSpeedModifiers_def
  updateControlStates_def controlOf_def cooldownOf_def setCooldown_def speedBonusFor_def
  reset_car_def reset_track_def updatePosition_def updateCurrentSpeed_def addSpeedModifier_def
  notExpired_def isRaceComplete_def decreaseModifiers_def
  checkBrakePoints_def checkStraightPoints_def newTrackManager_def defaultTrack_def
  Let_def checkpointKey_def map_has_def map_delete_def getControlStates_def expiredKeys_def
  getRemainingDuration_def isControlActive_def checkpointTypeOf_def inactiveControl_def
  deactivateControl_def

text \<open>The hook \<open>atFirstStraight\<close> is the one the first two seconds of a race lead to.\<close>

lemma atFirstStraight_reached:
  "hook_run (useGameState defaultTrack) firstSecondsOfRace = atFirstStraight"
  by (simp add: firstSecondsOfRace_def atFirstStraight_def hook_eval upt_rec)

text \<open>
  A press on a control whose state in the game holds the activation of the first
  active checkpoint of the kind, as it does while one window of the kind is open: the
  car manager pushes the one modifier \<open>reactionBoost\<close> of that checkpoint and recomputes
  the speed, the control is inactive afterwards, and a second press adds no increase.
\<close>

lemma green_press_one_trigger:
  assumes "gameStatus (gameState h) = Running"
    and "\<not> t - cooldownOf k (inputCooldownRef h) < 100"
    and "firstActive k (trackManager h) = Some cp"
    and "t - ev_activatedAt cp < ev_duration cp"
    and "activatedAt (controlOf k (activeControls (gameState h))) = ev_activatedAt cp"
  shows "speedModifiers (carManager (handleControlInput k t t0 t1 h))
           = filter (notExpired t1)
               (speedModifiers (carManager h)
                  @ [reactionBoost (speedIncrease (gs_track (gameState h))) t t0 cp])
     \<and> (t1 - t0 < ev_duration cp - (t - ev_activatedAt cp) \<longrightarrow>
          speedModifiers (carManager (handleControlInput k t t0 t1 h))
            = filter (notExpired t1) (speedModifiers (carManager h))
                @ [reactionBoost (speedIncrease (gs_track (gameState h))) t t0 cp])
     \<and> (\<forall>t'. \<not> isControlActive k t' (trackManager (handleControlInput k t t0 t1 h)))
     \<and> (\<forall>t2 t0' t1'.
           increaseModifiers (carManager
               (handleControlInput k t2 t0' t1' (handleControlInput k t t0 t1 h)))
             = increaseModifiers (carManager (handleControlInput k t t0 t1 h))
           \<or> increaseModifiers (carManager
               (handleControlInput k t2 t0' t1' (handleControlInput k t t0 t1 h)))
             = filter (notExpired t1')
                 (increaseModifiers (carManager (handleControlInput k t t0 t1 h))))"
proof (intro conjI)
  let ?boost = "reactionBoost (speedIncrease (gs_track (gameState h))) t t0 cp"
  have active: "isControlActive k t (trackManager h)"
    using assms(3,4) by (auto simp: isControlActive_def activeLoop_find firstActive_def)
  note green = handleControlInput_green [OF assms(1,2) active, of t0 t1]
  from assms(3,4) have rem: "max 0 (getRemainingDuration k t (trackManager h))
                      = ev_duration cp - (t - ev_activatedAt cp)"
    by (simp add: getRemainingDuration_def firstActive_def remainingLoop_find)
  have car: "carManager (handleControlInput k t t0 t1 h) =
      addSpeedModifier Increase (amount ?boost) (duration ?boost) t0 t1 (carManager h)"
    using green(1) rem assms(5) by (simp add: reactionBoost_def speedBonusFor_tiers)
  have boost: "\<lparr>mtype = Increase, amount = amount ?boost, startTime = t0,
                 duration = duration ?boost\<rparr> = ?boost"
    by (simp add: reactionBoost_def)
  show pushed: "speedModifiers (carManager (handleControlInput k t t0 t1 h))
      = filter (notExpired t1) (speedModifiers (carManager h) @ [?boost])"
    by (simp only: car addSpeedModifier_modifiers boost)
  show "t1 - t0 < ev_duration cp - (t - ev_activatedAt cp) \<longrightarrow>
      speedModifiers (carManager (handleControlInput k t t0 t1 h))
        = filter (notExpired t1) (speedModifiers (carManager h)) @ [?boost]"
    by (simp add: pushed notExpired_def reactionBoost_def)
  show off: "\<forall>t'. \<not> isControlActive k t' (trackManager (handleControlInput k t t0 t1 h))"
    by (simp only: green(2) isControlActive_after_deactivate) simp
  show "\<forall>t2 t0' t1'.
           increaseModifiers (carManager
               (handleControlInput k t2 t0' t1' (handleControlInput k t t0 t1 h)))
             = increaseModifiers (carManager (handleControlInput k t t0 t1 h))
           \<or> increaseModifiers (carManager
               (handleControlInput k t2 t0' t1' (handleControlInput k t t0 t1 h)))
             = filter (notExpired t1')
                 (increaseModifiers (carManager (handleControlInput k t t0 t1 h)))"
    using off handleControlInput_red_increases by blast
qed

text \<open>
  The scenario of the specification: the straight point at 100m fires at 2000, the
  reaction at 2050 gives an increase of 15 * 1.5 = 22.5 for 2000 - 50 = 1950ms.
\<close>

lemma green_press_at_first_straight:
  "speedModifiers (carManager (handleControlInput Acceleration 2050 2050 2050 atFirstStraight))
       = [\<lparr>mtype = Increase, amount = 22.5, startTime = 2050, duration = 1950\<rparr>]
   \<and> \<not> isControlActive Acceleration 2200
         (trackManager (handleControlInput Acceleration 2050 2050 2050 atFirstStraight))"
proof -
  let ?cp = "\<lparr>ev_type = StraightPoint, ev_distance = 100, ev_activatedAt = 2000,
              ev_duration = 2000\<rparr>"
  have running: "gameStatus (gameState atFirstStraight) = Running"
    by (simp add: atFirstStraight_def)
  have cooled: "\<not> 2050 - cooldownOf Acceleration (inputCooldownRef atFirstStraight) < 100"
    by (simp add: atFirstStraight_def cooldownOf_def)
  have first: "firstActive Acceleration (trackManager atFirstStraight) = Some ?cp"
    by (simp add: atFirstStraight_def firstActive_def checkpointTypeOf_def)
  have live: "2050 - ev_activatedAt ?cp < ev_duration ?cp" by simp
  have a: "activatedAt (controlOf Acceleration (activeControls (gameState atFirstStraight)))
             = ev_activatedAt ?cp"
    by (simp add: atFirstStraight_def controlOf_def)
  note boost = green_press_one_trigger [OF running cooled first live a, of 2050 2050]
  have s: "speedIncrease (gs_track (gameState atFirstStraight)) = 15"
    and m: "speedModifiers (carManager atFirstStraight) = []"
    by (simp_all add: atFirstStraight_def defaultTrack_def)
  have b: "reactionBoost 15 2050 2050 ?cp
           = \<lparr>mtype = Increase, amount = 22.5, startTime = 2050, duration = 1950\<rparr>"
    by (simp add: reactionBoost_def)
  from boost have "speedModifiers (carManager (handleControlInput Acceleration 2050 2050 2050 atFirstStraight))
       = [\<lparr>mtype = Increase, amount = 22.5, startTime = 2050, duration = 1950\<rparr>]"
    by (simp add: s b m notExpired_def)
  moreover from boost
  have "\<not> isControlActive Acceleration 2200
         (trackManager (handleControlInput Acceleration 2050 2050 2050 atFirstStraight))"
    by blast
  ultimately show ?thesis by blast
qed

text \<open>
  Claim C3 on the code. On \<open>overlapTrack\<close>, which \<open>validateTrack\<close> accepts, the brake
  triggers at 5m and 6m are activated at 100 and at 200, and the brake state of the game
  holds the later activation. A brake press at 350 gets the magnitude of a reaction to
  the trigger of 200 (150ms, 15 * 1.5 = 22.5) with the duration left of the window of
  the trigger of 100 (2000 - 250 = 1750): the modifier is that of neither trigger, for
  which the claim gives 18 for 1750ms or 22.5 for 1850ms. At 2105, after a frame at
  2090, the window of the first trigger has run out while the game shows the brake
  active and the window of the second trigger is open: the press gets the penalty, a
  decrease of 10 for 1000ms, and no boost.
\<close>

theorem green_press_mixes_triggers:
  "validateTrack overlapTrack = Inr ()
   \<and> map snd (activeCheckpoints (trackManager (hook_run (useGameState overlapTrack) bothBrakesOpen)))
       = [brakeAt5, brakeAt6]
   \<and> brake (activeControls (gameState (hook_run (useGameState overlapTrack) bothBrakesOpen)))
       = \<lparr>isActive = True, activatedAt = 200, cs_duration = 2000\<rparr>
   \<and> speedModifiers (carManager (hook_run (useGameState overlapTrack)
         (bothBrakesOpen @ [HandleControlInput Brake 350 350 350])))
       = [\<lparr>mtype = Increase, amount = 22.5, startTime = 350, duration = 1750\<rparr>]
   \<and> reactionBoost 15 350 350 brakeAt5
       = \<lparr>mtype = Increase, amount = 18, startTime = 350, duration = 1750\<rparr>
   \<and> reactionBoost 15 350 350 brakeAt6
       = \<lparr>mtype = Increase, amount = 22.5, startTime = 350, duration = 1850\<rparr>
   \<and> map snd (activeCheckpoints (trackManager
         (hook_run (useGameState overlapTrack) firstBrakeRunningOut)))
       = [brakeAt5, brakeAt6]
   \<and> brake (activeControls (gameState (hook_run (useGameState overlapTrack) firstBrakeRunningOut)))
       = \<lparr>isActive = True, activatedAt = 200, cs_duration = 2000\<rparr>
   \<and> 2105 - ev_activatedAt brakeAt6 < ev_duration brakeAt6
   \<and> speedModifiers (carManager (hook_run (useGameState overlapTrack)
         (firstBrakeRunningOut @ [HandleControlInput Brake 2105 2105 2105])))
       = [\<lparr>mtype = Decrease, amount = 10, startTime = 2105, duration = 1000\<rparr>]"
  by (simp add: overlapTrack_def bothBrakesOpen_def firstBrakeRunningOut_def brakeAt5_def
        brakeAt6_def reactionBoost_def hook_eval validateTrack_def arraysEqual_def
        everyEqualsAt_def strictEqualsAt_def sortAscending_def)

text \<open>
  Claim C6 on the code. \<open>startRace\<close> and \<open>resetGame\<close> clear \<open>activePenaltiesRef\<close> but
  leave the pending \<open>setTimeout\<close> callbacks. After a restart the callback of a penalty
  of the previous race removes the mark of a penalty of the new one: on
  \<open>restartTrace\<close> the brake presses at 1900 and at 2050, both on the inactive control
  and 150ms apart, each add a decrease of 10 for 1000ms, and the speed falls to 30.
\<close>

theorem penalty_stacks_after_restart:
  "decreaseModifiers (carManager (hook_run (useGameState defaultTrack) restartTrace))
     = [\<lparr>mtype = Decrease, amount = 10, startTime = 1900, duration = 1000\<rparr>,
        \<lparr>mtype = Decrease, amount = 10, startTime = 2050, duration = 1000\<rparr>]
   \<and> currentSpeed (carManager (hook_run (useGameState defaultTrack) restartTrace)) = 30"
  by (simp add: restartTrace_def hook_eval)

lemma frame_refs:
  "activePenaltiesRef (updateControlStates c (updateSpeedModifiers b (updateCarPosition dt a e h)))
     = activePenaltiesRef h"
  "pendingTimeouts (updateControlStates c (updateSpeedModifiers b (updateCarPosition dt a e h)))
     = pendingTimeouts h"
  by (simp_all add: updateControlStates_def updateSpeedModifiers_def updateCarPosition_def Let_def)

lemma handleControlInput_held:
  "penaltyHeld k d h \<Longrightarrow> penaltyHeld k d (handleControlInput k2 t t0 t1 h)"
  by (auto simp: penaltyHeld_def handleControlInput_def Let_def)

lemma runTimeouts_held:
  "penaltyHeld k d h \<Longrightarrow> now < d \<Longrightarrow> penaltyHeld k d (runTimeouts now h)"
  by (auto simp: penaltyHeld_def runTimeouts_def Let_def)

lemma step_held:
  "penaltyHeld k d h \<Longrightarrow> withinRace d ev \<Longrightarrow> penaltyHeld k d (hook_step h ev)"
proof (cases ev)
  case (HandleControlInput k2 t t0 t1)
  assume "penaltyHeld k d h" then show ?thesis
    using HandleControlInput by (simp add: handleControlInput_held)
next
  case (Frame dt a e b c)
  assume "penaltyHeld k d h" then show ?thesis
    using Frame by (simp add: penaltyHeld_def frame_refs)
next
  case (RunTimeouts now)
  assume "penaltyHeld k d h" "withinRace d ev" then show ?thesis
    using RunTimeouts by (simp add: runTimeouts_held)
qed simp_all

lemma run_held:
  "penaltyHeld k d h \<Longrightarrow> list_all (withinRace d) es \<Longrightarrow> penaltyHeld k d (hook_run h es)"
  unfolding hook_run_def
  by (induction es arbitrary: h) (simp_all add: step_held)

lemma red_press_ignored:
  "k \<in> activePenaltiesRef g \<Longrightarrow> \<not> isControlActive k t (trackManager g) \<Longrightarrow>
   handleControlInput k t t0 t1 g = g"
  by (simp add: handleControlInput_def)

lemma red_press_penalty:
  assumes "gameStatus (gameState h) = Running"
    and "\<not> t - cooldownOf k (inputCooldownRef h) < 100"
    and "\<not> isControlActive k t (trackManager h)"
    and "k \<notin> activePenaltiesRef h"
  shows "speedModifiers (carManager (handleControlInput k t t0 t1 h))
           = filter (notExpired t1)
               (speedModifiers (carManager h) @
                [\<lparr>mtype = Decrease, amount = speedDecrease (gs_track (gameState h)),
                  startTime = t0, duration = 1000\<rparr>])"
    and "activePenaltiesRef (handleControlInput k t t0 t1 h) = insert k (activePenaltiesRef h)"
    and "pendingTimeouts (handleControlInput k t t0 t1 h) = pendingTimeouts h @ [(t1 + 1000, k)]"
    and "cooldownOf k (inputCooldownRef (handleControlInput k t t0 t1 h)) = t"
  using assms
  by (simp_all add: handleControlInput_def Let_def addSpeedModifier_modifiers
        cooldownOf_def setCooldown_def split: control_type.splits)

text \<open>
  Within one race, with no callback of an earlier penalty of the kind still pending:
  after a penalty, a press of that kind on the inactive control changes nothing before
  the callback of that penalty may run.
\<close>

lemma penalty_exclusive_within_race:
  assumes "gameStatus (gameState h) = Running"
    and "\<not> t - cooldownOf k (inputCooldownRef h) < 100"
    and "\<not> isControlActive k t (trackManager h)"
    and "k \<notin> activePenaltiesRef h"
    and "\<forall>p \<in> set (pendingTimeouts h). snd p \<noteq> k"
    and "list_all (withinRace (t1 + 1000)) es"
    and "\<not> isControlActive k t2 (trackManager (hook_run (handleControlInput k t t0 t1 h) es))"
  shows "handleControlInput k t2 t0' t1' (hook_run (handleControlInput k t t0 t1 h) es)
           = hook_run (handleControlInput k t t0 t1 h) es"
proof -
  have "penaltyHeld k (t1 + 1000) (handleControlInput k t t0 t1 h)"
    using red_press_penalty(2,3) [OF assms(1-4), of t0 t1] assms(5)
    by (auto simp: penaltyHeld_def)
  from run_held [OF this assms(6)]
  have "k \<in> activePenaltiesRef (hook_run (handleControlInput k t t0 t1 h) es)"
    by (simp add: penaltyHeld_def)
  then show ?thesis using assms(7) by (rule red_press_ignored)
qed

text \<open>Two presses of one kind less than 100ms apart: the second is ignored.\<close>

lemma press_in_cooldown_ignored:
  "t2 - cooldownOf k (inputCooldownRef g) < 100 \<Longrightarrow> handleControlInput k t2 t0 t1 g = g"
  by (simp add: handleControlInput_def)

subsection \<open>TrackManager: the checkpoint each query reports\<close>

lemma find_snoc:
  "find P (xs @ [x]) = (case find P xs of None \<Rightarrow> (if P x then Some x else None) | Some y \<Rightarrow> Some y)"
  by (induction xs) simp_all

lemma find_filter_same:
  "\<forall>x \<in> set xs. P x \<longrightarrow> Q x \<Longrightarrow> find P (filter Q xs) = find P xs"
  by (induction xs) auto

lemma setControlStates_brake:
  "brake (setControlStates t m st) =
     (case find (liveOf BrakePoint t) (rev m) of
        None \<Rightarrow> brake st
      | Some e \<Rightarrow> stateOf (snd e))"
  by (induction m arbitrary: st)
     (simp_all add: find_snoc Let_def liveOf_def stateOf_def split: option.splits)

lemma setControlStates_acceleration:
  "acceleration (setControlStates t m st) =
     (case find (liveOf StraightPoint t) (rev m) of
        None \<Rightarrow> acceleration st
      | Some e \<Rightarrow> stateOf (snd e))"
  by (induction m arbitrary: st)
     (simp_all add: find_snoc Let_def liveOf_def stateOf_def split: option.splits)

lemma setControlStates_last:
  "controlOf k (setControlStates t m st) =
     (case find (liveOf (checkpointTypeOf k) t) (rev m) of
        None \<Rightarrow> controlOf k st
      | Some e \<Rightarrow> stateOf (snd e))"
  by (cases k)
     (simp_all add: controlOf_def checkpointTypeOf_def setControlStates_brake
        setControlStates_acceleration split: option.splits)

text \<open>In a map, which has one entry per key, the clean-up removes no live checkpoint.\<close>

lemma live_survives:
  assumes "distinct (map fst m)" and "e \<in> set m" and "liveOf ty t e"
  shows "fst e \<notin> set (expiredKeys t m)"
proof
  assume "fst e \<in> set (expiredKeys t m)"
  then obtain e' where e': "e' \<in> set m" "fst e' = fst e"
    "t - ev_activatedAt (snd e') \<ge> ev_duration (snd e')"
    by (auto simp: expiredKeys_def)
  from assms(1) e'(1,2) assms(2) have "e' = e"
    by (metis eq_key_imp_eq_value prod.collapse)
  with e'(3) assms(3) show False by (simp add: liveOf_def)
qed

text \<open>
  \<open>getControlStates\<close> reports, for each kind, the last live checkpoint of the kind in
  the order of the map; \<open>isControlActive\<close> and \<open>getRemainingDuration\<close> answer for the
  first checkpoint of the kind.
\<close>

lemma getControlStates_last:
  assumes "distinct (map fst (activeCheckpoints tm))"
  shows "controlOf k (fst (getControlStates t tm)) =
     (case find (liveOf (checkpointTypeOf k) t) (rev (activeCheckpoints tm)) of
        None \<Rightarrow> inactiveControl
      | Some e \<Rightarrow> stateOf (snd e))"
proof -
  let ?m = "activeCheckpoints tm"
  let ?ks = "expiredKeys t ?m"
  have "\<forall>e \<in> set (rev ?m). liveOf (checkpointTypeOf k) t e \<longrightarrow> fst e \<notin> set ?ks"
    using live_survives [OF assms] by simp
  then have "find (liveOf (checkpointTypeOf k) t) (filter (\<lambda>e. fst e \<notin> set ?ks) (rev ?m))
          = find (liveOf (checkpointTypeOf k) t) (rev ?m)"
    by (rule find_filter_same)
  then have "find (liveOf (checkpointTypeOf k) t) (rev (foldl map_delete ?m ?ks))
          = find (liveOf (checkpointTypeOf k) t) (rev ?m)"
    by (simp add: foldl_map_delete rev_filter)
  then show ?thesis
    using setControlStates_last [of k t "foldl map_delete ?m ?ks"
        "\<lparr>brake = inactiveControl, acceleration = inactiveControl\<rparr>"]
    by (cases k) (simp_all add: getControlStates_def Let_def controlOf_def split: option.splits)
qed

lemma isControlActive_first:
  "isControlActive k t tm \<longleftrightarrow>
     (\<exists>cp. firstActive k tm = Some cp \<and> t - ev_activatedAt cp < ev_duration cp)"
  by (simp add: isControlActive_def firstActive_def activeLoop_find)

lemma getRemainingDuration_first:
  "firstActive k tm = Some cp \<Longrightarrow>
   getRemainingDuration k t tm = max 0 (ev_duration cp - (t - ev_activatedAt cp))"
  by (simp add: getRemainingDuration_def firstActive_def remainingLoop_find)

text \<open>The association list of a manager keeps one entry per key.\<close>

lemma map_set_keys:
  "map fst (map_set m k v) = (if k \<in> set (map fst m) then map fst m else map fst m @ [k])"
  by (induction m) auto

lemma step_distinct_keys:
  assumes "distinct (map fst (activeCheckpoints tm))"
  shows "distinct (map fst (activeCheckpoints (snd (track_step tm call))))"
proof (cases call)
  case (CheckBrakePoints d t)
  with assms show ?thesis
    by (simp add: checkBrakePoints_def loop_find map_set_keys Let_def split: option.splits)
next
  case (CheckStraightPoints d t)
  with assms show ?thesis
    by (simp add: checkStraightPoints_def loop_find map_set_keys Let_def split: option.splits)
next
  case (GetControlStates t)
  with assms show ?thesis
    by (simp add: getControlStates_def Let_def foldl_map_delete distinct_map_filter)
next
  case (DeactivateControl k)
  with assms show ?thesis
    by (simp add: deactivateControl_def Let_def foldl_map_delete distinct_map_filter)
qed

lemma run_distinct_keys:
  "distinct (map fst (activeCheckpoints tm)) \<Longrightarrow>
   distinct (map fst (activeCheckpoints (snd (track_run tm calls))))"
  by (induction calls arbitrary: tm) (simp_all add: step_distinct_keys Let_def)

subsection \<open>The game hook: one open window of a kind\<close>

lemma filter_at_most_one:
  "length (filter Q xs) \<le> 1 \<Longrightarrow> x \<in> set xs \<Longrightarrow> Q x \<Longrightarrow> y \<in> set xs \<Longrightarrow> Q y \<Longrightarrow> x = y"
proof (induction xs)
  case Nil
  then show ?case by simp
next
  case (Cons z zs)
  show ?case
  proof (cases "Q z")
    case True
    with Cons.prems(1) have "filter Q zs = []" by simp
    then have none: "\<forall>w \<in> set zs. \<not> Q w" by (simp add: filter_empty_conv)
    with Cons.prems(2-5) show ?thesis by auto
  next
    case False
    with Cons.prems have "x \<in> set zs" "y \<in> set zs" "length (filter Q zs) \<le> 1" by auto
    with Cons.IH Cons.prems(3,5) show ?thesis by blast
  qed
qed

text \<open>
  With one entry of a kind in the map, the state \<open>getControlStates\<close> reports for the
  kind is that of the checkpoint \<open>isControlActive\<close> and \<open>getRemainingDuration\<close> then
  answer for.
\<close>

lemma one_window_agrees:
  assumes d: "distinct (map fst (activeCheckpoints tm))"
    and one: "length (filter (\<lambda>e. ev_type (snd e) = checkpointTypeOf k) (activeCheckpoints tm)) \<le> 1"
    and first: "firstActive k (snd (getControlStates T tm)) = Some cp"
  shows "controlOf k (fst (getControlStates T tm)) = stateOf cp"
proof -
  let ?m = "activeCheckpoints tm"
  let ?ty = "checkpointTypeOf k"
  from first obtain e where e: "e \<in> set ?m" "fst e \<notin> set (expiredKeys T ?m)"
      "snd e = cp" "ev_type cp = ?ty"
    by (auto simp: firstActive_def getControlStates_def Let_def foldl_map_delete
          dest!: find_Some_member)
  from e(1,2) have "\<not> T - ev_activatedAt (snd e) \<ge> ev_duration (snd e)"
    by (auto simp: expiredKeys_def)
  with e(3,4) have live: "liveOf ?ty T e" by (simp add: liveOf_def)
  with e(1) have "\<exists>x. x \<in> set (rev ?m) \<and> liveOf ?ty T x"
    by (intro exI [of _ e]) simp
  then have "find (liveOf ?ty T) (rev ?m) \<noteq> None"
    by (simp only: find_None_iff) simp
  then obtain e' where e': "find (liveOf ?ty T) (rev ?m) = Some e'" by blast
  then have "e' \<in> set ?m" "ev_type (snd e') = ?ty"
    by (auto dest!: find_Some_member simp: liveOf_def)
  with one e(1,3,4) have "e' = e"
    by (intro filter_at_most_one [of "\<lambda>e. ev_type (snd e) = ?ty" ?m]) simp_all
  with e' e(3) show ?thesis
    by (simp add: getControlStates_last [OF d])
qed

text \<open>
  After the updater of a frame the game holds, for each kind, the activation
  \<open>getControlStates\<close> has just reported.
\<close>

lemma updateControlStates_syncs:
  assumes "gameStatus (gameState h) = Running"
  shows "\<exists>tm. trackManager (updateControlStates T h) = snd (getControlStates T tm)
           \<and> tm = snd (checkStraightPoints (distanceCovered (gs_car (gameState h))) T
                     (snd (checkBrakePoints (distanceCovered (gs_car (gameState h))) T
                        (trackManager h))))
           \<and> activatedAt (controlOf k (activeControls (gameState (updateControlStates T h))))
               = activatedAt (controlOf k (fst (getControlStates T tm)))"
  using assms
  by (cases k) (auto simp: updateControlStates_def Let_def controlOf_def)

end
